theory Spec2Isabelle
  imports Main "HOL-Library.AList"
begin

section \<open>Protocol constants (types.ts)\<close>

definition HANDSHAKE_REQUEST :: string where
  "HANDSHAKE_REQUEST = ''ANCHOR/HANDSHAKE_REQUEST''"

definition HANDSHAKE_REPLY :: string where
  "HANDSHAKE_REPLY = ''ANCHOR/HANDSHAKE_REPLY''"

definition RPC_REQUEST :: string where
  "RPC_REQUEST = ''ANCHOR/RPC_REQUEST''"

definition RPC_RESOLVE :: string where
  "RPC_RESOLVE = ''ANCHOR/RPC_RESOLVE''"

definition RPC_REJECT :: string where
  "RPC_REJECT = ''ANCHOR/RPC_REJECT''"

section \<open>Messages, events and the platform\<close>

text \<open>
  The objects a message can come from or be posted to. \<open>isWindow\<close> is the test
  \<^verbatim>\<open>x.window === x\<close> of the source; only a service-worker client carries an \<^verbatim>\<open>id\<close>.
\<close>

datatype endpoint =
  WindowRef nat
  | WorkerRef nat
  | ServiceWorkerRef nat
  | ClientRef nat string

fun isWindow :: "endpoint \<Rightarrow> bool" where
  "isWindow (WindowRef _) = True"
| "isWindow _ = False"

text \<open>
  The \<^verbatim>\<open>MessageReceiver\<close> of rpc.ts: a \<^verbatim>\<open>Worker\<close>, which has a \<^verbatim>\<open>postMessage\<close>, or an
  object with \<^verbatim>\<open>addEventListener\<close> and \<^verbatim>\<open>removeEventListener\<close> only
  (\<^verbatim>\<open>postMessage?: never\<close>).
\<close>

datatype receiver = WorkerReceiver nat | AdapterReceiver nat

fun hasPostMessage :: "receiver \<Rightarrow> bool" where
  "hasPostMessage (WorkerReceiver _) = True"
| "hasPostMessage (AdapterReceiver _) = False"

text \<open>
  \<open>event.data\<close> is untyped in the source, and every listener reads the fields it needs
  from whatever arrives. One record holds the fields of the five payload shapes; a string
  field that is absent is the empty string (both are falsy and differ from every name the
  code compares with), an absent \<open>connectionID\<close>, \<open>args\<close>, \<open>result\<close>, \<open>error\<close> or
  \<open>schema\<close> is \<open>None\<close>. The type \<open>'v\<close> is the type of JavaScript values.
\<close>

record 'v payload =
  action :: string
  callID :: string
  callName :: string
  connectionID :: "string option"
  args :: "'v option"
  result :: "'v option"
  error :: "'v option"
  methods :: "string list"
  schema :: "'v option"

text \<open>
  A message event. Two events with the same content are two objects, and the code writes
  into the objects of \<open>event.data.schema\<close> (see \<open>registerRemoteMethods\<close>), so an event
  carries the identity of its object.
\<close>

record 'v event =
  eventId :: nat
  data :: "'v payload option"
  source :: "endpoint option"
  origin :: string

text \<open>
  The identity of an object that a copy \<^verbatim>\<open>{...schema}\<close> of the schema of an event holds
  under a key without owning it: an object of the schema of that event, shared by every
  copy of that schema, or an object every plain object inherits.
\<close>

datatype objRef = OfEvent nat string | Inherited string

text \<open>
  What the code takes from outside: the helpers of helpers.ts, which is not part of the
  sources at hand (\<open>isTrustedRemote\<close>, \<open>isWorker()\<close>, \<open>getOriginFromURL\<close>), the
  JSON round trip \<^verbatim>\<open>JSON.parse(JSON.stringify(x))\<close> and the serialisation of a caught
  error \<^verbatim>\<open>JSON.parse(JSON.stringify(e, Object.getOwnPropertyNames(e)))\<close>, both of which
  can throw (\<open>Inl\<close> carries the thrown value), the values \<^verbatim>\<open>[]\<close> and \<^verbatim>\<open>null\<close>, and the
  identifiers \<^verbatim>\<open>uuidv4()\<close> returns, as the n-th identifier generated in this context.
  Of lodash's \<open>set\<close>, \<open>toPath\<close> is the key path it takes for a method name on a copy of
  the given schema (\<open>castPath\<close>), and \<open>nestedObject\<close> tells what the copy of the schema of
  an event holds under a key before anything is set: \<open>Some\<close> for an object or a function
  (lodash's \<open>isObject\<close>), with its identity, \<open>None\<close> for any other value and for no value.
\<close>

record 'v env =
  isTrustedRemote :: "'v event \<Rightarrow> bool"
  isWorker :: bool
  getOriginFromURL :: "string option \<Rightarrow> string option"
  jsonClone :: "'v \<Rightarrow> 'v + 'v"
  serializeError :: "'v \<Rightarrow> 'v + 'v"
  emptyArgs :: 'v
  nullValue :: 'v
  uuidv4 :: "nat \<Rightarrow> string"
  toPath :: "'v option \<Rightarrow> string \<Rightarrow> string list"
  nestedObject :: "'v event \<Rightarrow> string \<Rightarrow> objRef option"

text \<open>
  A local schema: \<open>invoke s path a\<close> is the outcome of
  \<^verbatim>\<open>await get(schema, path)(...a)\<close>, the value returned (\<open>Inr\<close>) or the value thrown
  (\<open>Inl\<close>, also when the path holds no function); \<open>extractMethods\<close> is the list of
  paths the helper of that name returns for the schema, and \<open>shape\<close> the schema as a
  value, for its JSON round trip.
\<close>

record 'v localSchema =
  invoke :: "string \<Rightarrow> 'v \<Rightarrow> 'v + 'v"
  extractMethods :: "string list"
  shape :: 'v

datatype 'v thrown = TypeError | ErrorMsg string | Thrown 'v

datatype 'v completion = Returned | Threw "'v thrown"

datatype channel =
  ViaReceiver receiver
  | ViaGlobal
  | ViaSource endpoint "string option"

datatype 'v promiseState = Pending | Resolved "'v option" | Rejected "'v option"

text \<open>
  The closures the code subscribes as message handlers. \<open>HandleCall\<close> is the
  \<open>handleCall\<close> of \<open>registerLocalMethods\<close> with what it captures (schema, method name,
  connection identifier, message receiver); \<open>HandleResponse\<close> is the
  \<open>handleResponse\<close> of \<open>createRPC\<close> with the \<open>listeners\<close> array its remover was
  pushed to, the call name, the connection identifier, the call identifier and the promise
  it settles.
\<close>

datatype 'v listener =
  HandleCall "'v localSchema" string "string option" "receiver option"
  | HandleResponse nat string "string option" string nat

text \<open>
  The function \<open>createRPC\<close> returns is determined by what it captures: the call name,
  the connection identifier, the handshake event, the \<open>listeners\<close> array (named by a
  number) and the message receiver.
\<close>

record 'v proxy =
  proxyName :: string
  proxyConnection :: "string option"
  proxyEvent :: "'v event"
  proxyRegistry :: nat
  proxyReceiver :: "receiver option"

text \<open>
  What lodash's \<open>set\<close> builds and walks: a function \<open>createRPC\<close> made, with the
  properties set on it, or another object, with its properties. Only the properties
  \<open>set\<close> has written are kept: the values a schema brings along are JSON values and
  hold no function, and what an object inherits is looked at under the first key of a path
  only (\<open>nestedObject\<close>).
\<close>

datatype 'v node =
  Fn "'v proxy" "(string \<times> 'v node) list"
  | Obj "(string \<times> 'v node) list"

text \<open>
  One execution context: the subscribed handlers in subscription order, each with the
  identity of its closure and the object it is subscribed on (\<open>None\<close> is \<^verbatim>\<open>self\<close>),
  the \<open>postMessage\<close> calls made, the invocations of local methods (each evaluation
  of \<^verbatim>\<open>get(schema, methodName)(...args)\<close>, with the method name and the arguments),
  the promises of the remote calls (a promise is named by its position), the counters
  for fresh identities, and what \<open>set\<close> has written into the objects that remote
  objects share.
\<close>

record 'v ctx =
  handlers :: "(nat \<times> receiver option \<times> 'v listener) list"
  nextHandler :: nat
  outbox :: "(channel \<times> 'v payload) list"
  calls :: "(string \<times> 'v) list"
  promises :: "'v promiseState list"
  uuidCount :: nat
  nextRegistry :: nat
  shared :: "(objRef \<times> 'v node) list"

section \<open>rpc.ts\<close>

definition emptyPayload :: "'v payload" where
  "emptyPayload = \<lparr>action = [], callID = [], callName = [], connectionID = None,
     args = None, result = None, error = None, methods = [], schema = None\<rparr>"

definition post :: "channel \<Rightarrow> 'v payload \<Rightarrow> 'v ctx \<Rightarrow> 'v ctx" where
  "post ch p c = c\<lparr>outbox := outbox c @ [(ch, p)]\<rparr>"

text \<open>\<^verbatim>\<open>messageReceiver && messageReceiver.postMessage\<close>\<close>

definition receiverPost :: "receiver option \<Rightarrow> receiver option" where
  "receiverPost mr =
     (case mr of None \<Rightarrow> None | Some r \<Rightarrow> if hasPostMessage r then Some r else None)"

text \<open>
  The \<^verbatim>\<open>try\<close>/\<^verbatim>\<open>catch\<close> of \<open>handleCall\<close>: the method runs on the arguments and
  its result goes through the JSON round trip inside the \<^verbatim>\<open>try\<close>, so a throw of
  either lands in the \<^verbatim>\<open>catch\<close>, which serialises the error outside any
  \<^verbatim>\<open>try\<close> (\<open>Inl\<close>: that serialisation threw). The payload keeps the action
  \<open>RPC_RESOLVE\<close> in both cases.
\<close>

definition buildResponse ::
  "'v env \<Rightarrow> 'v localSchema \<Rightarrow> string \<Rightarrow> 'v payload \<Rightarrow> 'v \<Rightarrow> 'v thrown + 'v payload" where
  "buildResponse e s methodName d a =
     (let p = emptyPayload\<lparr>action := RPC_RESOLVE, callID := callID d,
                callName := callName d, connectionID := connectionID d,
                error := Some (nullValue e), result := Some (nullValue e)\<rparr>
      in case (case invoke s methodName a of
                 Inl x \<Rightarrow> Inl x
               | Inr r \<Rightarrow> jsonClone e r) of
           Inr r \<Rightarrow> Inr (p\<lparr>result := Some r\<rparr>)
         | Inl x \<Rightarrow>
             (case serializeError e x of
                Inl y \<Rightarrow> Inl (Thrown y)
              | Inr y \<Rightarrow> Inr (p\<lparr>error := Some y\<rparr>)))"

text \<open>
  The end of \<open>handleCall\<close>: the choice of the \<open>postMessage\<close> the response goes to.
  Reading \<^verbatim>\<open>event.source.window\<close> of an absent source throws.
\<close>

definition sendResponse ::
  "'v env \<Rightarrow> receiver option \<Rightarrow> 'v event \<Rightarrow> 'v payload \<Rightarrow> 'v ctx
    \<Rightarrow> 'v ctx \<times> 'v completion" where
  "sendResponse e mr ev p c =
     (case receiverPost mr of
        Some r \<Rightarrow> (post (ViaReceiver r) p c, Returned)
      | None \<Rightarrow>
          if isWorker e then (post ViaGlobal p c, Returned)
          else (case source ev of
                  None \<Rightarrow> (c, Threw TypeError)
                | Some s \<Rightarrow>
                    if isWindow s
                    then (post (ViaSource s (Some (origin ev))) p c, Returned)
                    else (post (ViaSource s None) p c, Returned)))"

text \<open>
  \<open>handleCall\<close>. Destructuring an absent \<open>event.data\<close> throws. The five guards return
  early; \<open>args\<close> is \<^verbatim>\<open>[]\<close> when absent.
\<close>

definition handleCall ::
  "'v env \<Rightarrow> 'v localSchema \<Rightarrow> string \<Rightarrow> string option \<Rightarrow> receiver option
    \<Rightarrow> 'v event \<Rightarrow> 'v ctx \<Rightarrow> 'v ctx \<times> 'v completion" where
  "handleCall e s methodName cid mr ev c =
     (case data ev of
        None \<Rightarrow> (c, Threw TypeError)
      | Some d \<Rightarrow>
          if action d \<noteq> RPC_REQUEST then (c, Returned)
          else if \<not> isTrustedRemote e ev then (c, Returned)
          else if callID d = [] \<or> callName d = [] then (c, Returned)
          else if callName d \<noteq> methodName then (c, Returned)
          else if connectionID d \<noteq> cid then (c, Returned)
          else
            let a = (case args d of None \<Rightarrow> emptyArgs e | Some x \<Rightarrow> x);
                c1 = c\<lparr>calls := calls c @ [(methodName, a)]\<rparr>
            in (case buildResponse e s methodName d a of
                  Inl x \<Rightarrow> (c1, Threw x)
                | Inr p \<Rightarrow> sendResponse e mr ev p c1))"

text \<open>
  \<open>registerLocalMethods\<close>: one \<open>handleCall\<close> per method name, subscribed on the
  message receiver, or on \<^verbatim>\<open>self\<close> without one. The result holds the identities of
  the closures subscribed, which is what the returned function removes.
\<close>

definition subscribe :: "receiver option \<Rightarrow> 'v listener \<Rightarrow> 'v ctx \<Rightarrow> 'v ctx" where
  "subscribe mr l c =
     c\<lparr>handlers := handlers c @ [(nextHandler c, mr, l)], nextHandler := Suc (nextHandler c)\<rparr>"

fun registerLocalMethods ::
  "'v localSchema \<Rightarrow> string list \<Rightarrow> string option \<Rightarrow> receiver option \<Rightarrow> 'v ctx
    \<Rightarrow> nat list \<times> 'v ctx" where
  "registerLocalMethods s [] cid mr c = ([], c)"
| "registerLocalMethods s (methodName # ms) cid mr c =
     (let r = registerLocalMethods s ms cid mr (subscribe mr (HandleCall s methodName cid mr) c)
      in (nextHandler c # fst r, snd r))"

definition unregisterLocal :: "nat list \<Rightarrow> 'v ctx \<Rightarrow> 'v ctx" where
  "unregisterLocal ids c = c\<lparr>handlers := filter (\<lambda>h. fst h \<notin> set ids) (handlers c)\<rparr>"

text \<open>
  Settling a promise: \<open>resolve\<close> and \<open>reject\<close> act on a pending promise only.
\<close>

definition settle :: "nat \<Rightarrow> 'v promiseState \<Rightarrow> 'v ctx \<Rightarrow> 'v ctx" where
  "settle i v c =
     (if i < length (promises c) \<and> promises c ! i = Pending
      then c\<lparr>promises := (promises c)[i := v]\<rparr> else c)"

text \<open>
  \<open>handleResponse\<close> of \<open>createRPC\<close>. It settles the promise and returns; it does not
  unsubscribe itself.
\<close>

definition handleResponse ::
  "'v env \<Rightarrow> string \<Rightarrow> string option \<Rightarrow> string \<Rightarrow> nat \<Rightarrow> 'v event \<Rightarrow> 'v ctx
    \<Rightarrow> 'v ctx \<times> 'v completion" where
  "handleResponse e name cid cD i ev c =
     (case data ev of
        None \<Rightarrow> (c, Threw TypeError)
      | Some d \<Rightarrow>
          if \<not> isTrustedRemote e ev then (c, Returned)
          else if callID d = [] \<or> callName d = [] then (c, Returned)
          else if callName d \<noteq> name then (c, Returned)
          else if connectionID d \<noteq> cid then (c, Returned)
          else if callID d \<noteq> cD then (c, Returned)
          else if action d = RPC_RESOLVE then (settle i (Resolved (result d)) c, Returned)
          else if action d = RPC_REJECT then (settle i (Rejected (error d)) c, Returned)
          else (c, Returned))"

text \<open>
  lodash's \<open>set\<close> below the first key of a path (\<open>baseSet\<close>): at the last key the value
  is assigned; before it, the walk goes into the value found under the key when that is an
  object or a function, and into a new object assigned there otherwise.
\<close>

fun children :: "'v node \<Rightarrow> (string \<times> 'v node) list" where
  "children (Fn p cs) = cs"
| "children (Obj cs) = cs"

fun withChildren :: "'v node \<Rightarrow> (string \<times> 'v node) list \<Rightarrow> 'v node" where
  "withChildren (Fn p _) cs = Fn p cs"
| "withChildren (Obj _) cs = Obj cs"

fun setPath :: "string list \<Rightarrow> 'v proxy \<Rightarrow> 'v node \<Rightarrow> 'v node" where
  "setPath [] p n = n"
| "setPath [k] p n = withChildren n (AList.update k (Fn p []) (children n))"
| "setPath (k # k' # ks) p n =
     withChildren n
       (AList.update k
          (setPath (k' # ks) p (case map_of (children n) k of Some m \<Rightarrow> m | None \<Rightarrow> Obj []))
          (children n))"

fun getPath :: "string list \<Rightarrow> 'v node \<Rightarrow> 'v node option" where
  "getPath [] n = Some n"
| "getPath (k # ks) n =
     (case map_of (children n) k of None \<Rightarrow> None | Some m \<Rightarrow> getPath ks m)"

text \<open>
  The remote object \<open>registerRemoteMethods\<close> builds, \<^verbatim>\<open>{...schema}\<close> with the functions
  of \<open>createRPC\<close> set into it: the schema it copies, the advertised names, what the
  functions capture, and the properties of the copy that \<open>set\<close> has assigned
  (\<open>remoteOwn\<close>). A property the copy has from the schema and that holds an object is
  not the copy's own object: it is the object of the event's schema, and what \<open>set\<close>
  writes into it is kept in \<open>shared\<close>, per object.
\<close>

record 'v remote =
  remoteSchema :: "'v option"
  remoteMethods :: "string list"
  remoteConnection :: "string option"
  remoteEvent :: "'v event"
  remoteRegistry :: nat
  remoteReceiver :: "receiver option"
  remoteOwn :: "(string \<times> 'v node) list"

text \<open>
  \<^verbatim>\<open>set(remote, methodName, rpc)\<close>, on the own properties of the remote object and the
  shared objects. With an empty path nothing is set.
\<close>

definition placeProxy ::
  "'v env \<Rightarrow> 'v option \<Rightarrow> 'v proxy \<Rightarrow> (string \<times> 'v node) list \<times> 'v ctx
    \<Rightarrow> (string \<times> 'v node) list \<times> 'v ctx" where
  "placeProxy e sch p st =
     (case toPath e sch (proxyName p) of
        [] \<Rightarrow> st
      | k # ks \<Rightarrow>
          if ks = [] then (AList.update k (Fn p []) (fst st), snd st)
          else
            (case map_of (fst st) k of
               Some n \<Rightarrow> (AList.update k (setPath ks p n) (fst st), snd st)
             | None \<Rightarrow>
                 (case nestedObject e (proxyEvent p) k of
                    None \<Rightarrow> (AList.update k (setPath ks p (Obj [])) (fst st), snd st)
                  | Some ob \<Rightarrow>
                      (fst st,
                       (snd st)\<lparr>shared :=
                          AList.update ob
                            (setPath ks p (case map_of (shared (snd st)) ob of
                                             Some n \<Rightarrow> n | None \<Rightarrow> Obj []))
                            (shared (snd st))\<rparr>))))"

definition registerRemoteMethods ::
  "'v env \<Rightarrow> 'v option \<Rightarrow> string list \<Rightarrow> string option \<Rightarrow> 'v event \<Rightarrow> receiver option
    \<Rightarrow> 'v ctx \<Rightarrow> 'v remote \<times> 'v ctx" where
  "registerRemoteMethods e sch ms cid ev mr c =
     (let g = nextRegistry c;
          st = fold (\<lambda>methodName.
                       placeProxy e sch
                         \<lparr>proxyName = methodName, proxyConnection = cid, proxyEvent = ev,
                           proxyRegistry = g, proxyReceiver = mr\<rparr>)
                 ms ([], c\<lparr>nextRegistry := Suc g\<rparr>)
      in (\<lparr>remoteSchema = sch, remoteMethods = ms, remoteConnection = cid, remoteEvent = ev,
           remoteRegistry = g, remoteReceiver = mr, remoteOwn = fst st\<rparr>,
          snd st))"

text \<open>
  \<open>unregisterRemote\<close> runs every remover pushed to the \<open>listeners\<close> array: it removes
  the \<open>handleResponse\<close> closures of the calls made through this remote object.
\<close>

fun pushedTo :: "nat \<Rightarrow> 'v listener \<Rightarrow> bool" where
  "pushedTo g (HandleResponse g' _ _ _ _) = (g' = g)"
| "pushedTo g (HandleCall _ _ _ _) = False"

definition unregisterRemote :: "nat \<Rightarrow> 'v ctx \<Rightarrow> 'v ctx" where
  "unregisterRemote g c =
     c\<lparr>handlers := filter (\<lambda>h. \<not> pushedTo g (snd (snd h))) (handlers c)\<rparr>"

text \<open>
  The function \<open>createRPC\<close> returns, applied to the arguments \<open>a\<close>: the body of the
  promise. A throw of the JSON round trip of the arguments, which comes before the
  subscription, rejects the promise. Without a receiver that posts, outside a worker and
  with no source on the handshake event, nothing is sent. The result names the promise.
\<close>

definition createRPC ::
  "'v env \<Rightarrow> string \<Rightarrow> string option \<Rightarrow> 'v event \<Rightarrow> nat \<Rightarrow> receiver option \<Rightarrow> 'v
    \<Rightarrow> 'v ctx \<Rightarrow> nat \<times> 'v ctx" where
  "createRPC e name cid ev g mr a c =
     (let i = length (promises c);
          cD = uuidv4 e (uuidCount c);
          c1 = c\<lparr>promises := promises c @ [Pending], uuidCount := Suc (uuidCount c)\<rparr>
      in case jsonClone e a of
           Inl x \<Rightarrow> (i, settle i (Rejected (Some x)) c1)
         | Inr a' \<Rightarrow>
             let p = emptyPayload\<lparr>action := RPC_REQUEST, args := Some a', callID := cD,
                       callName := name, connectionID := cid\<rparr>;
                 c2 = subscribe mr (HandleResponse g name cid cD i) c1
             in (i, case receiverPost mr of
                      Some r \<Rightarrow> post (ViaReceiver r) p c2
                    | None \<Rightarrow>
                        if isWorker e then post ViaGlobal p c2
                        else (case source ev of
                                Some s \<Rightarrow>
                                  if isWindow s then post (ViaSource s (Some (origin ev))) p c2
                                  else post (ViaSource s None) p c2
                              | None \<Rightarrow> c2)))"

text \<open>
  The function found in the remote object along a key path, \<^verbatim>\<open>remote.k1.k2\<close>: the own
  property of the remote object under the first key, or else the object of the schema
  there, and from it the rest of the path. \<open>None\<close> when the path ends on no function
  that \<open>createRPC\<close> has made.
\<close>

definition proxyAt :: "'v env \<Rightarrow> 'v remote \<Rightarrow> string list \<Rightarrow> 'v ctx \<Rightarrow> 'v proxy option" where
  "proxyAt e r path c =
     (case path of
        [] \<Rightarrow> None
      | k # ks \<Rightarrow>
          (case (case map_of (remoteOwn r) k of
                   Some n \<Rightarrow> getPath ks n
                 | None \<Rightarrow>
                     (case nestedObject e (remoteEvent r) k of
                        None \<Rightarrow> None
                      | Some ob \<Rightarrow>
                          (case map_of (shared c) ob of
                             None \<Rightarrow> None
                           | Some n \<Rightarrow> getPath ks n))) of
             Some (Fn p _) \<Rightarrow> Some p
           | _ \<Rightarrow> None))"

text \<open>
  Calling the function at a key path of the remote object with the arguments \<open>a\<close>,
  \<^verbatim>\<open>remote.k1.k2(...a)\<close>; \<open>None\<close> when the path holds no function of \<open>createRPC\<close>.
\<close>

definition callRemote ::
  "'v env \<Rightarrow> 'v remote \<Rightarrow> string list \<Rightarrow> 'v \<Rightarrow> 'v ctx \<Rightarrow> (nat \<times> 'v ctx) option" where
  "callRemote e r path a c =
     (case proxyAt e r path c of
        None \<Rightarrow> None
      | Some p \<Rightarrow>
          Some (createRPC e (proxyName p) (proxyConnection p) (proxyEvent p) (proxyRegistry p)
                  (proxyReceiver p) a c))"

text \<open>
  Delivery of a message event to the handlers subscribed on one object: each handler of
  the list taken when the delivery starts runs, in subscription order, unless it has been
  removed meanwhile; what a handler throws does not stop the others.
\<close>

fun runListener :: "'v env \<Rightarrow> 'v listener \<Rightarrow> 'v event \<Rightarrow> 'v ctx \<Rightarrow> 'v ctx \<times> 'v completion" where
  "runListener e (HandleCall s methodName cid mr) ev c = handleCall e s methodName cid mr ev c"
| "runListener e (HandleResponse g name cid cD i) ev c = handleResponse e name cid cD i ev c"

fun deliverTo ::
  "'v env \<Rightarrow> 'v event \<Rightarrow> (nat \<times> receiver option \<times> 'v listener) list \<Rightarrow> 'v ctx \<Rightarrow> 'v ctx" where
  "deliverTo e ev [] c = c"
| "deliverTo e ev (h # hs) c =
     deliverTo e ev hs
       (if fst h \<in> fst ` set (handlers c) then fst (runListener e (snd (snd h)) ev c) else c)"

definition dispatchMessage :: "'v env \<Rightarrow> receiver option \<Rightarrow> 'v event \<Rightarrow> 'v ctx \<Rightarrow> 'v ctx" where
  "dispatchMessage e t ev c =
     deliverTo e ev (filter (\<lambda>h. fst (snd h) = t) (handlers c)) c"

section \<open>host.ts\<close>

text \<open>
  A guest is an iframe element, here with the value of its \<^verbatim>\<open>src\<close> attribute and its
  \<^verbatim>\<open>contentWindow\<close>, or a worker; \<^verbatim>\<open>null\<close> is \<open>None\<close>. The target a host record
  is kept for is the window, a worker or the global scope of a service worker.
\<close>

record iframe =
  frameId :: nat
  src :: "string option"
  contentWindow :: "endpoint option"

datatype guest = Iframe iframe | WorkerGuest nat

datatype hostTarget = WindowTarget | WorkerTarget nat | ServiceWorkerScope

text \<open>
  The callback given to \<open>host.connect\<close>: one of the caller's own, which the model only
  records, or the one the exported \<open>connect\<close> builds, which stops the host once nothing
  is pending and resolves its promise.
\<close>

datatype callback = UserCallback nat | ConnectCallback nat

text \<open>
  The connection object, with what its \<open>close\<close> captures: the handlers
  \<open>unregisterLocal\<close> removes, the \<open>listeners\<close> array of \<open>unregisterRemote\<close>, and
  the connection identifier.
\<close>

record 'v connection =
  remote :: "'v remote"
  clientId :: "string option"
  closeLocal :: "nat list"
  closeID :: string

text \<open>
  The closure \<open>listener\<close> of \<open>host.connect\<close>, with its identity, and the closure state
  of \<open>findOrCreateHostFor\<close>. \<open>connections\<close> keeps the insertion order of the object's
  keys, \<open>connectionListeners\<close> that of the map and of its sets.
\<close>

record 'v connectionListener =
  listenerId :: nat
  listenerSchema :: "'v localSchema"
  listenerCallback :: callback

record 'v host =
  pendingConnections :: int
  connections :: "(string \<times> 'v connection) list"
  connectionListeners :: "(guest option \<times> 'v connectionListener list) list"

text \<open>
  The context of the host side: the map \<open>hosts\<close>, the targets a \<open>mainListener\<close> is
  subscribed on, the state of rpc.ts, the connections handed to callbacks in the order of
  the calls, and the counter for the identities of the \<open>listener\<close> closures.
\<close>

record 'v world =
  hosts :: "(hostTarget \<times> 'v host) list"
  targetListeners :: "hostTarget list"
  rpc :: "'v ctx"
  delivered :: "(callback \<times> 'v connection) list"
  nextListener :: nat

definition isValidTarget :: "'v env \<Rightarrow> iframe \<Rightarrow> 'v event \<Rightarrow> bool" where
  "isValidTarget e fr ev =
     (let childURL = src fr;
          childOrigin = getOriginFromURL e childURL;
          hasProperOrigin = (Some (origin ev) = childOrigin);
          hasProperSource = (source ev = contentWindow fr)
      in hasProperOrigin \<and> hasProperSource)"

text \<open>
  The adapter \<open>messageReceiver\<close> of a host record: an object without \<open>postMessage\<close>
  for the global scope of a service worker, undefined otherwise. Its handlers are the set
  \<open>downstreamReceivers\<close>.
\<close>

definition messageReceiver :: "hostTarget \<Rightarrow> receiver option" where
  "messageReceiver t = (if t = ServiceWorkerScope then Some (AdapterReceiver 0) else None)"

text \<open>
  \<^verbatim>\<open>guest && isWorker(guest) ? guest : undefined\<close>; the helper \<open>isWorker\<close>,
  applied to a guest, is taken to hold of the workers and of nothing else.
\<close>

fun workerOf :: "guest option \<Rightarrow> receiver option" where
  "workerOf (Some (WorkerGuest n)) = Some (WorkerReceiver n)"
| "workerOf _ = None"

text \<open>\<^verbatim>\<open>guest && event.source === guest.contentWindow\<close>, on an event that has a source\<close>

fun isContentWindow :: "guest option \<Rightarrow> endpoint \<Rightarrow> bool" where
  "isContentWindow (Some (Iframe fr)) s = (contentWindow fr = Some s)"
| "isContentWindow _ s = False"

fun clientIdOf :: "endpoint \<Rightarrow> string option" where
  "clientIdOf (ClientRef _ i) = Some i"
| "clientIdOf _ = None"

text \<open>
  The \<open>close\<close> of a connection of the host: both directions are unregistered and the
  connection leaves the map.
\<close>

definition closeConnection :: "'v connection \<Rightarrow> 'v host \<times> 'v ctx \<Rightarrow> 'v host \<times> 'v ctx" where
  "closeConnection cn st =
     ((fst st)\<lparr>connections := filter (\<lambda>kv. fst kv \<noteq> closeID cn) (connections (fst st))\<rparr>,
      unregisterLocal (closeLocal cn) (unregisterRemote (remoteRegistry (remote cn)) (snd st)))"

text \<open>
  \<open>negotiateConnection\<close>, the function \<open>makeConnectionNegotiator\<close> returns for a guest,
  the map \<open>connections\<close> and the adapter. The JSON round trip of the schema comes after
  both registrations; when it throws, what they did stays.
\<close>

definition negotiateConnection ::
  "'v env \<Rightarrow> guest option \<Rightarrow> receiver option \<Rightarrow> 'v localSchema \<Rightarrow> 'v event
    \<Rightarrow> 'v host \<times> 'v ctx \<Rightarrow> ('v thrown + 'v connection) \<times> 'v host \<times> 'v ctx" where
  "negotiateConnection e g adapter s ev st =
     (case source ev of
        None \<Rightarrow> (Inl (ErrorMsg ''missing event source''), st)
      | Some sender \<Rightarrow>
          (let c = snd st;
               cID = uuidv4 e (uuidCount c);
               mr = (case workerOf g of Some w \<Rightarrow> Some w | None \<Rightarrow> adapter);
               localMethods = extractMethods s;
               l = registerLocalMethods s localMethods (Some cID) mr
                     (c\<lparr>uuidCount := Suc (uuidCount c)\<rparr>)
           in (case data ev of
                 None \<Rightarrow> (Inl TypeError, fst st, snd l)
               | Some d \<Rightarrow>
                   (let r = registerRemoteMethods e (schema d) (methods d) (Some cID) ev mr (snd l)
                    in (case jsonClone e (shape s) of
                          Inl x \<Rightarrow> (Inl (Thrown x), fst st, snd r)
                        | Inr sch \<Rightarrow>
                            (let p = emptyPayload\<lparr>action := HANDSHAKE_REPLY,
                                       connectionID := Some cID, methods := localMethods,
                                       schema := Some sch\<rparr>;
                                 c3 = (if isContentWindow g sender
                                       then post (ViaSource sender (Some ''*'')) p (snd r)
                                       else post (ViaSource sender None) p (snd r));
                                 cn = \<lparr>remote = fst r, clientId = clientIdOf sender,
                                        closeLocal = fst l, closeID = cID\<rparr>
                             in (Inr cn,
                                 (fst st)\<lparr>connections :=
                                    AList.update cID cn (connections (fst st))\<rparr>,
                                 c3)))))))"

text \<open>
  \<open>findOrCreateHostFor\<close>: a new record is put into \<open>hosts\<close> and its \<open>mainListener\<close>
  is subscribed on the target.
\<close>

definition newHost :: "'v host" where
  "newHost = \<lparr>pendingConnections = 0, connections = [], connectionListeners = []\<rparr>"

definition findOrCreateHostFor :: "hostTarget \<Rightarrow> 'v world \<Rightarrow> 'v world" where
  "findOrCreateHostFor t w =
     (case map_of (hosts w) t of
        Some foundHost \<Rightarrow> w
      | None \<Rightarrow> w\<lparr>hosts := AList.update t newHost (hosts w),
                   targetListeners := targetListeners w @ [t]\<rparr>)"

text \<open>
  \<open>host.connect\<close>, on the closure state and the identity for the new \<open>listener\<close>.
\<close>

definition hostConnect ::
  "guest option \<Rightarrow> 'v localSchema \<Rightarrow> callback \<Rightarrow> nat \<Rightarrow> 'v host \<Rightarrow> 'v host" where
  "hostConnect g s cb n h =
     (let l = \<lparr>listenerId = n, listenerSchema = s, listenerCallback = cb\<rparr>;
          forGuest = (case map_of (connectionListeners h) g of None \<Rightarrow> [] | Some ls \<Rightarrow> ls)
      in h\<lparr>pendingConnections := pendingConnections h + 1,
            connectionListeners := AList.update g (forGuest @ [l]) (connectionListeners h)\<rparr>)"

text \<open>
  \<open>host.stop\<close>, on the closure state and the context: the connections are closed when
  asked for, the \<open>mainListener\<close> is removed from the target and the target leaves
  \<open>hosts\<close>.
\<close>

definition closeAll :: "'v host \<times> 'v ctx \<Rightarrow> 'v host \<times> 'v ctx" where
  "closeAll st = fold closeConnection (map snd (connections (fst st))) st"

definition hostStop :: "hostTarget \<Rightarrow> bool \<Rightarrow> 'v host \<times> 'v world \<Rightarrow> 'v host \<times> 'v world" where
  "hostStop t shouldCleanupConnections st =
     (let cl = (if shouldCleanupConnections then closeAll (fst st, rpc (snd st))
                else (fst st, rpc (snd st)))
      in (fst cl,
          (snd st)\<lparr>rpc := snd cl,
                    targetListeners := filter (\<lambda>x. x \<noteq> t) (targetListeners (snd st)),
                    hosts := filter (\<lambda>kv. fst kv \<noteq> t) (hosts (snd st))\<rparr>))"

definition hostDisconnect :: "string \<Rightarrow> 'v host \<times> 'v ctx \<Rightarrow> 'v host \<times> 'v ctx" where
  "hostDisconnect connectionId st =
     (case map_of (connections (fst st)) connectionId of
        Some cn \<Rightarrow> closeConnection cn st
      | None \<Rightarrow> st)"

text \<open>The two kinds of callback, called with a connection.\<close>

fun runCallback ::
  "hostTarget \<Rightarrow> callback \<Rightarrow> 'v connection \<Rightarrow> 'v host \<times> 'v world \<Rightarrow> 'v host \<times> 'v world" where
  "runCallback t (UserCallback n) cn st =
     (fst st, (snd st)\<lparr>delivered := delivered (snd st) @ [(UserCallback n, cn)]\<rparr>)"
| "runCallback t (ConnectCallback n) cn st =
     (let st1 = (if pendingConnections (fst st) = 0 then hostStop t False st else st)
      in (fst st1, (snd st1)\<lparr>delivered := delivered (snd st1) @ [(ConnectCallback n, cn)]\<rparr>))"

text \<open>
  The closure \<open>listener\<close> of \<open>host.connect\<close>, called by \<open>mainListener\<close> with the
  negotiator of its guest. What \<open>negotiateConnection\<close> throws passes through.
\<close>

definition runConnectionListener ::
  "'v env \<Rightarrow> hostTarget \<Rightarrow> guest option \<Rightarrow> 'v connectionListener \<Rightarrow> 'v event
    \<Rightarrow> 'v host \<times> 'v world \<Rightarrow> ('v host \<times> 'v world) \<times> 'v completion" where
  "runConnectionListener e t g l ev st =
     (case negotiateConnection e g (messageReceiver t) (listenerSchema l) ev
             (fst st, rpc (snd st)) of
        (Inl x, h1, c1) \<Rightarrow> ((h1, (snd st)\<lparr>rpc := c1\<rparr>), Threw x)
      | (Inr cn, h1, c1) \<Rightarrow>
          (let h2 = h1\<lparr>pendingConnections := max (pendingConnections h1 - 1) 0,
                       connectionListeners :=
                         AList.map_entry g (filter (\<lambda>x. listenerId x \<noteq> listenerId l))
                           (connectionListeners h1)\<rparr>
           in (runCallback t (listenerCallback l) cn (h2, (snd st)\<lparr>rpc := c1\<rparr>), Returned)))"

text \<open>
  The inner loop of \<open>mainListener\<close>, over the set of listeners of one guest. A
  listener that has left the set before its turn is not called; a throw ends the loop.
\<close>

definition listenersFor :: "guest option \<Rightarrow> 'v host \<Rightarrow> 'v connectionListener list" where
  "listenersFor g h = (case map_of (connectionListeners h) g of None \<Rightarrow> [] | Some ls \<Rightarrow> ls)"

fun forListeners ::
  "'v env \<Rightarrow> hostTarget \<Rightarrow> guest option \<Rightarrow> 'v event \<Rightarrow> 'v connectionListener list
    \<Rightarrow> 'v host \<times> 'v world \<Rightarrow> ('v host \<times> 'v world) \<times> 'v completion" where
  "forListeners e t g ev [] st = (st, Returned)"
| "forListeners e t g ev (l # ls) st =
     (if listenerId l \<in> listenerId ` set (listenersFor g (fst st))
      then (case runConnectionListener e t g l ev st of
              (st1, Threw x) \<Rightarrow> (st1, Threw x)
            | (st1, Returned) \<Rightarrow> forListeners e t g ev ls st1)
      else forListeners e t g ev ls st)"

text \<open>
  The outer loop, over the guests of the map: an iframe that fails \<open>isValidTarget\<close> is
  skipped.
\<close>

fun skipped :: "'v env \<Rightarrow> 'v event \<Rightarrow> guest option \<Rightarrow> bool" where
  "skipped e ev (Some (Iframe fr)) = (\<not> isValidTarget e fr ev)"
| "skipped e ev _ = False"

fun forGuests ::
  "'v env \<Rightarrow> hostTarget \<Rightarrow> 'v event \<Rightarrow> guest option list
    \<Rightarrow> 'v host \<times> 'v world \<Rightarrow> ('v host \<times> 'v world) \<times> 'v completion" where
  "forGuests e t ev [] st = (st, Returned)"
| "forGuests e t ev (g # gs) st =
     (if skipped e ev g then forGuests e t ev gs st
      else (case forListeners e t g ev (listenersFor g (fst st)) st of
              (st1, Threw x) \<Rightarrow> (st1, Threw x)
            | (st1, Returned) \<Rightarrow> forGuests e t ev gs st1))"

text \<open>
  \<open>mainListener\<close> of the host record of a target, on the record itself and the context.
\<close>

definition mainListener ::
  "'v env \<Rightarrow> hostTarget \<Rightarrow> 'v event \<Rightarrow> 'v host \<times> 'v world
    \<Rightarrow> ('v host \<times> 'v world) \<times> 'v completion" where
  "mainListener e t ev st =
     (case data ev of
        None \<Rightarrow> (st, Threw (ErrorMsg ''unknown message type''))
      | Some d \<Rightarrow>
          if source ev = None \<or> origin ev = []
          then (st, Threw (ErrorMsg ''unknown message type''))
          else if action d = HANDSHAKE_REQUEST
          then forGuests e t ev (map fst (connectionListeners (fst st))) st
          else if t = ServiceWorkerScope
          then ((fst st,
                 (snd st)\<lparr>rpc := dispatchMessage e (messageReceiver t) ev (rpc (snd st))\<rparr>),
                Returned)
          else (st, Returned))"

text \<open>
  What the host side can be asked to do. A record changed by an operation is put back
  into \<open>hosts\<close> unless the operation has stopped it; an operation on the record of a
  target finds or creates it first, and a message reaches a \<open>mainListener\<close> only where
  one is subscribed. \<open>receive\<close> is the part of a delivery that \<open>mainListener\<close>
  does. The operations act on the record \<open>hosts\<close> holds for the target: a record that
  has been stopped is not used again.
\<close>

definition putHost :: "hostTarget \<Rightarrow> 'v host \<times> 'v world \<Rightarrow> 'v world" where
  "putHost t st =
     (if t \<in> fst ` set (hosts (snd st))
      then (snd st)\<lparr>hosts := AList.update t (fst st) (hosts (snd st))\<rparr>
      else snd st)"

definition receive :: "'v env \<Rightarrow> hostTarget \<Rightarrow> 'v event \<Rightarrow> 'v world \<Rightarrow> 'v world" where
  "receive e t ev w =
     (case map_of (hosts w) t of
        None \<Rightarrow> w
      | Some h \<Rightarrow> putHost t (fst (mainListener e t ev (h, w))))"

definition connectOn ::
  "hostTarget \<Rightarrow> guest option \<Rightarrow> 'v localSchema \<Rightarrow> callback \<Rightarrow> 'v world \<Rightarrow> 'v world" where
  "connectOn t g s cb w =
     (let w1 = findOrCreateHostFor t w
      in case map_of (hosts w1) t of
           None \<Rightarrow> w1
         | Some h \<Rightarrow>
             putHost t (hostConnect g s cb (nextListener w1) h,
                        w1\<lparr>nextListener := Suc (nextListener w1)\<rparr>))"

definition disconnectOn :: "hostTarget \<Rightarrow> string \<Rightarrow> 'v world \<Rightarrow> 'v world" where
  "disconnectOn t connectionId w =
     (case map_of (hosts w) t of
        None \<Rightarrow> w
      | Some h \<Rightarrow>
          (let st = hostDisconnect connectionId (h, rpc w)
           in putHost t (fst st, w\<lparr>rpc := snd st\<rparr>)))"

definition stopOn :: "hostTarget \<Rightarrow> bool \<Rightarrow> 'v world \<Rightarrow> 'v world" where
  "stopOn t shouldCleanupConnections w =
     (case map_of (hosts w) t of
        None \<Rightarrow> w
      | Some h \<Rightarrow> snd (hostStop t shouldCleanupConnections (h, w)))"

text \<open>
  The exported \<open>connect\<close>: the result is the error the returned promise rejects with
  at once, or the number of the promise, which \<open>ConnectCallback\<close> resolves later.
\<close>

fun targetOf :: "guest \<Rightarrow> hostTarget" where
  "targetOf (WorkerGuest n) = WorkerTarget n"
| "targetOf (Iframe fr) = WindowTarget"

definition connect ::
  "guest option \<Rightarrow> 'v localSchema \<Rightarrow> nat \<Rightarrow> 'v world \<Rightarrow> ('v thrown + nat) \<times> 'v world" where
  "connect g s n w =
     (case g of
        None \<Rightarrow> (Inl (ErrorMsg ''a target is required''), w)
      | Some guest \<Rightarrow> (Inr n, connectOn (targetOf guest) g s (ConnectCallback n) w))"

text \<open>
  The exported \<open>serve\<close> finds or creates the record; each connection its generator is
  asked for is one \<open>host.connect\<close> with the guest \<^verbatim>\<open>null\<close>.
\<close>

definition serve :: "hostTarget \<Rightarrow> 'v world \<Rightarrow> 'v world" where
  "serve t w = findOrCreateHostFor t w"

definition serveNext :: "hostTarget \<Rightarrow> 'v localSchema \<Rightarrow> nat \<Rightarrow> 'v world \<Rightarrow> 'v world" where
  "serveNext t s n w = connectOn t None s (UserCallback n) w"

datatype 'v hostOp =
  Connect "guest option" "'v localSchema" nat
  | HostConnect hostTarget "guest option" "'v localSchema" callback
  | Serve hostTarget
  | Receive hostTarget "'v event"
  | Disconnect hostTarget string
  | Stop hostTarget bool

fun hostStep :: "'v env \<Rightarrow> 'v hostOp \<Rightarrow> 'v world \<Rightarrow> 'v world" where
  "hostStep e (Connect g s n) w = snd (connect g s n w)"
| "hostStep e (HostConnect t g s cb) w = connectOn t g s cb w"
| "hostStep e (Serve t) w = serve t w"
| "hostStep e (Receive t ev) w = receive e t ev w"
| "hostStep e (Disconnect t i) w = disconnectOn t i w"
| "hostStep e (Stop t b) w = stopOn t b w"

definition hostRun :: "'v env \<Rightarrow> 'v hostOp list \<Rightarrow> 'v world \<Rightarrow> 'v world" where
  "hostRun e ops w = fold (hostStep e) ops w"

definition emptyCtx :: "'v ctx" where
  "emptyCtx = \<lparr>handlers = [], nextHandler = 0, outbox = [], calls = [], promises = [],
     uuidCount = 0, nextRegistry = 0, shared = []\<rparr>"

definition emptyWorld :: "'v world" where
  "emptyWorld = \<lparr>hosts = [], targetListeners = [], rpc = emptyCtx, delivered = [],
     nextListener = 0\<rparr>"

section \<open>guest.ts\<close>

definition REQUEST_INTERVAL :: nat where
  "REQUEST_INTERVAL = 600"

definition TIMEOUT_INTERVAL :: nat where
  "TIMEOUT_INTERVAL = 3000"

text \<open>
  The connection object of the guest, with what its \<open>close\<close> captures, and the promise
  \<open>connect\<close> returns: pending, resolved with a connection, rejected with a string, or
  rejected with a value thrown inside its body.
\<close>

record 'v guestConnection =
  guestRemote :: "'v remote"
  guestCloseLocal :: "nat list"

datatype 'v connectPromise =
  Waiting
  | Fulfilled "'v guestConnection"
  | RejectedString string
  | RejectedThrown 'v

text \<open>
  One call of the guest's \<open>connect\<close>: its parameters, its variables \<open>connected\<close> and
  \<open>interval\<close> (whether the interval timer is set), whether the timeout is set,
  whether \<open>handleHandshakeResponse\<close> is subscribed, the payload of the request, the
  promise, the milliseconds since the call, and the state of rpc.ts in the guest's
  context.
\<close>

record 'v connector =
  target :: endpoint
  guestSchema :: "'v localSchema"
  connected :: bool
  interval :: bool
  timeout :: bool
  subscribed :: bool
  request :: "'v payload"
  promise :: "'v connectPromise"
  clock :: nat
  guestRpc :: "'v ctx"

text \<open>
  \<^verbatim>\<open>target instanceof ServiceWorker ? navigator.serviceWorker : undefined\<close>; the
  container has no \<open>postMessage\<close>. The handlers of the guest are subscribed on it, or on
  \<^verbatim>\<open>self\<close>.
\<close>

fun guestReceiver :: "endpoint \<Rightarrow> receiver option" where
  "guestReceiver (ServiceWorkerRef _) = Some (AdapterReceiver 0)"
| "guestReceiver _ = None"

text \<open>
  The body of the promise of \<open>connect\<close>. The listener is subscribed before the payload
  is built; when the JSON round trip of the schema throws, the promise is rejected and no
  timer is set.
\<close>

definition guestConnect :: "'v env \<Rightarrow> 'v localSchema \<Rightarrow> endpoint \<Rightarrow> 'v ctx \<Rightarrow> 'v connector" where
  "guestConnect e s tg c =
     (let g = \<lparr>target = tg, guestSchema = s, connected = False, interval = False,
                timeout = False, subscribed = True, request = emptyPayload,
                promise = Waiting, clock = 0, guestRpc = c\<rparr>
      in case jsonClone e (shape s) of
           Inl x \<Rightarrow> g\<lparr>promise := RejectedThrown x\<rparr>
         | Inr sch \<Rightarrow>
             g\<lparr>request := emptyPayload\<lparr>action := HANDSHAKE_REQUEST,
                              methods := extractMethods s, schema := Some sch\<rparr>,
                interval := True, timeout := True\<rparr>)"

definition handleHandshakeResponse ::
  "'v env \<Rightarrow> 'v event \<Rightarrow> 'v connector \<Rightarrow> 'v connector \<times> 'v completion" where
  "handleHandshakeResponse e ev g =
     (case data ev of
        None \<Rightarrow> (g, Threw TypeError)
      | Some d \<Rightarrow>
          if action d \<noteq> HANDSHAKE_REPLY then (g, Returned)
          else if Some (target g) \<noteq> source ev then (g, Returned)
          else
            (let mr = guestReceiver (target g);
                 l = registerLocalMethods (guestSchema g) (extractMethods (guestSchema g))
                       (connectionID d) mr (guestRpc g);
                 r = registerRemoteMethods e (schema d) (methods d) (connectionID d) ev mr (snd l);
                 cn = \<lparr>guestRemote = fst r, guestCloseLocal = fst l\<rparr>
             in (g\<lparr>guestRpc := snd r, connected := True,
                    promise := (if promise g = Waiting then Fulfilled cn else promise g)\<rparr>,
                 Returned)))"

text \<open>The \<open>close\<close> of a connection of the guest.\<close>

definition guestClose :: "'v guestConnection \<Rightarrow> 'v connector \<Rightarrow> 'v connector" where
  "guestClose cn g =
     g\<lparr>subscribed := False,
       guestRpc := unregisterLocal (guestCloseLocal cn)
                     (unregisterRemote (remoteRegistry (guestRemote cn)) (guestRpc g))\<rparr>"

text \<open>The callback of \<^verbatim>\<open>setInterval\<close> and the callback of \<^verbatim>\<open>setTimeout\<close>.\<close>

definition intervalCallback :: "'v connector \<Rightarrow> 'v connector" where
  "intervalCallback g =
     (if connected g then g\<lparr>interval := False\<rparr>
      else if isWindow (target g)
      then g\<lparr>guestRpc := post (ViaSource (target g) (Some ''*'')) (request g) (guestRpc g)\<rparr>
      else g\<lparr>guestRpc := post (ViaSource (target g) None) (request g) (guestRpc g)\<rparr>)"

definition timeoutCallback :: "'v connector \<Rightarrow> 'v connector" where
  "timeoutCallback g =
     (if \<not> connected g
      then g\<lparr>promise := (if promise g = Waiting then RejectedString ''connection timeout''
                          else promise g)\<rparr>
      else g)"

text \<open>
  One millisecond passes: a timer that is due runs, the interval, which was set first,
  before the timeout, which runs once.
\<close>

definition tick :: "'v connector \<Rightarrow> 'v connector" where
  "tick g =
     (let g1 = g\<lparr>clock := Suc (clock g)\<rparr>;
          g2 = (if interval g1 \<and> clock g1 mod REQUEST_INTERVAL = 0
                then intervalCallback g1 else g1)
      in if timeout g2 \<and> clock g2 = TIMEOUT_INTERVAL
         then timeoutCallback (g2\<lparr>timeout := False\<rparr>) else g2)"

primrec elapse :: "nat \<Rightarrow> 'v connector \<Rightarrow> 'v connector" where
  "elapse 0 g = g"
| "elapse (Suc n) g = elapse n (tick g)"

text \<open>
  A message event on the object the guest listens on: the handlers subscribed when the
  delivery starts run, \<open>handleHandshakeResponse\<close> and the handlers of rpc.ts in
  subscription order. \<open>handleHandshakeResponse\<close> only subscribes handlers and the
  handlers of rpc.ts only post, invoke and settle, so the place of
  \<open>handleHandshakeResponse\<close> among them does not change the outcome; it is run first.
\<close>

definition guestReceive :: "'v env \<Rightarrow> 'v event \<Rightarrow> 'v connector \<Rightarrow> 'v connector" where
  "guestReceive e ev g =
     (let hs = filter (\<lambda>h. fst (snd h) = guestReceiver (target g)) (handlers (guestRpc g));
          g1 = (if subscribed g then fst (handleHandshakeResponse e ev g) else g)
      in g1\<lparr>guestRpc := deliverTo e ev hs (guestRpc g1)\<rparr>)"

text \<open>
  What happens to a connector after the call: a message arrives, time passes, the caller
  closes the connection the promise gave it, or calls a method of its remote object.
\<close>

datatype 'v guestEvent =
  Message "'v event"
  | Elapse nat
  | Close
  | Call "string list" 'v

fun guestStep :: "'v env \<Rightarrow> 'v guestEvent \<Rightarrow> 'v connector \<Rightarrow> 'v connector" where
  "guestStep e (Message ev) g = guestReceive e ev g"
| "guestStep e (Elapse n) g = elapse n g"
| "guestStep e Close g = (case promise g of Fulfilled cn \<Rightarrow> guestClose cn g | _ \<Rightarrow> g)"
| "guestStep e (Call path a) g =
     (case promise g of
        Fulfilled cn \<Rightarrow>
          (case callRemote e (guestRemote cn) path a (guestRpc g) of
             Some r \<Rightarrow> g\<lparr>guestRpc := snd r\<rparr>
           | None \<Rightarrow> g)
      | _ \<Rightarrow> g)"

definition guestRun :: "'v env \<Rightarrow> 'v guestEvent list \<Rightarrow> 'v connector \<Rightarrow> 'v connector" where
  "guestRun e evs g = fold (guestStep e) evs g"

fun duration :: "'v guestEvent list \<Rightarrow> nat" where
  "duration [] = 0"
| "duration (Elapse n # evs) = n + duration evs"
| "duration (_ # evs) = duration evs"

section \<open>Example data\<close>

text \<open>
  Concrete values, helpers, schemas and messages, used to run the definitions: JavaScript
  values with \<^verbatim>\<open>undefined\<close> and BigInt among them, the schema
  \<^verbatim>\<open>{add: (a, b) => a + b}\<close>, a trust check that accepts everything, and identifiers
  \<open>u\<close>, \<open>uu\<close>, ... The JSON round trip is that of the platform on these values:
  \<^verbatim>\<open>JSON.stringify\<close> throws a TypeError on a BigInt, gives \<^verbatim>\<open>undefined\<close> for
  \<^verbatim>\<open>undefined\<close>, which \<^verbatim>\<open>JSON.parse\<close> refuses with a SyntaxError, writes \<^verbatim>\<open>null\<close> for an
  \<^verbatim>\<open>undefined\<close> element of an array and leaves out a property that is \<^verbatim>\<open>undefined\<close>. The
  serialisation of a caught error stands for the error. A method name is split into keys
  at its dots, and the objects a schema holds under a key are its own.
\<close>

datatype jsValue =
  JUndefined
  | JNull
  | JNum int
  | JStr string
  | JBigInt int
  | JArr "jsValue list"
  | JObj "(string \<times> jsValue) list"

fun hasBigInt :: "jsValue \<Rightarrow> bool" where
  "hasBigInt (JBigInt _) = True"
| "hasBigInt (JArr vs) = list_ex hasBigInt vs"
| "hasBigInt (JObj kvs) = list_ex (\<lambda>kv. hasBigInt (snd kv)) kvs"
| "hasBigInt _ = False"

fun stringified :: "jsValue \<Rightarrow> jsValue" where
  "stringified (JArr vs) = JArr (map (\<lambda>v. if v = JUndefined then JNull else stringified v) vs)"
| "stringified (JObj kvs) =
     JObj (map (\<lambda>kv. (fst kv, stringified (snd kv)))
             (filter (\<lambda>kv. snd kv \<noteq> JUndefined) kvs))"
| "stringified v = v"

definition exampleClone :: "jsValue \<Rightarrow> jsValue + jsValue" where
  "exampleClone v =
     (if hasBigInt v then Inl (JStr ''TypeError'')
      else if v = JUndefined then Inl (JStr ''SyntaxError'')
      else Inr (stringified v))"

fun splitDots :: "string \<Rightarrow> string \<Rightarrow> string list" where
  "splitDots acc [] = [acc]"
| "splitDots acc (c # cs) =
     (if c = CHR ''.'' then acc # splitDots [] cs else splitDots (acc @ [c]) cs)"

definition exampleNested :: "jsValue event \<Rightarrow> string \<Rightarrow> objRef option" where
  "exampleNested ev k =
     (case data ev of
        None \<Rightarrow> None
      | Some d \<Rightarrow>
          (case schema d of
             Some (JObj kvs) \<Rightarrow>
               (case map_of kvs k of
                  Some (JObj _) \<Rightarrow> Some (OfEvent (eventId ev) k)
                | Some (JArr _) \<Rightarrow> Some (OfEvent (eventId ev) k)
                | _ \<Rightarrow> None)
           | _ \<Rightarrow> None))"

fun exampleAdd :: "string \<Rightarrow> jsValue \<Rightarrow> jsValue + jsValue" where
  "exampleAdd p (JArr [JNum x, JNum y]) = Inr (JNum (x + y))"
| "exampleAdd p a = Inl (JStr ''TypeError'')"

definition exampleEnv :: "jsValue env" where
  "exampleEnv = \<lparr>isTrustedRemote = (\<lambda>ev. True), isWorker = False,
     getOriginFromURL = (\<lambda>u. u), jsonClone = exampleClone, serializeError = Inr,
     emptyArgs = JArr [], nullValue = JNull, uuidv4 = (\<lambda>n. replicate (Suc n) CHR ''u''),
     toPath = (\<lambda>sch name. splitDots [] name), nestedObject = exampleNested\<rparr>"

definition exampleSchema :: "jsValue localSchema" where
  "exampleSchema = \<lparr>invoke = exampleAdd, extractMethods = [''add''], shape = JObj []\<rparr>"

definition exampleRequest :: "jsValue payload" where
  "exampleRequest = emptyPayload\<lparr>action := RPC_REQUEST, callID := ''u'',
     callName := ''add'', connectionID := Some ''c-1'',
     args := Some (JArr [JNum 2, JNum 3])\<rparr>"

definition exampleRequestEvent :: "jsValue event" where
  "exampleRequestEvent = \<lparr>eventId = 1, data = Some exampleRequest, source = Some (WindowRef 1),
     origin = ''https://guest.example''\<rparr>"

definition exampleOrphanEvent :: "jsValue event" where
  "exampleOrphanEvent = \<lparr>eventId = 2, data = Some exampleRequest, source = None,
     origin = ''https://guest.example''\<rparr>"

definition exampleHandshake :: "jsValue event" where
  "exampleHandshake = \<lparr>eventId = 3, data = Some (emptyPayload\<lparr>action := HANDSHAKE_REQUEST,
       methods := [''add''], schema := Some (JObj [])\<rparr>),
     source = Some (WindowRef 1), origin = ''https://guest.example''\<rparr>"

definition exampleCaller :: "jsValue ctx" where
  "exampleCaller = snd (createRPC exampleEnv ''add'' (Some ''c-1'') exampleHandshake 0 None
     (JArr [JNum 2, JNum 3]) emptyCtx)"

definition exampleResponse :: "jsValue payload" where
  "exampleResponse = emptyPayload\<lparr>action := RPC_RESOLVE, callID := ''u'',
     callName := ''add'', connectionID := Some ''c-1'', result := Some (JNum 5),
     error := Some JNull\<rparr>"

definition exampleResolveEvent :: "jsValue event" where
  "exampleResolveEvent = \<lparr>eventId = 4, data = Some exampleResponse, source = Some (WindowRef 1),
     origin = ''https://guest.example''\<rparr>"

definition exampleRemote :: "jsValue remote" where
  "exampleRemote = fst (registerRemoteMethods exampleEnv (Some (JObj [])) [''add'']
     (Some ''c-1'') exampleHandshake None emptyCtx)"










text \<open>
  A handshake request of a guest with the schema \<^verbatim>\<open>{math: {add: (a, b) => a + b}}\<close>, whose
  JSON round trip keeps the object \<^verbatim>\<open>math\<close>, and the two remote objects that two
  negotiations build from that one event.
\<close>

definition exampleMathHandshake :: "jsValue event" where
  "exampleMathHandshake = \<lparr>eventId = 9, data = Some (emptyPayload\<lparr>action := HANDSHAKE_REQUEST,
       methods := [''math.add''], schema := Some (JObj [(''math'', JObj [])])\<rparr>),
     source = Some (WindowRef 1), origin = ''https://guest.example''\<rparr>"

definition exampleMathFirst :: "jsValue remote \<times> jsValue ctx" where
  "exampleMathFirst = registerRemoteMethods exampleEnv (Some (JObj [(''math'', JObj [])]))
     [''math.add''] (Some ''u'') exampleMathHandshake None emptyCtx"

definition exampleMathSecond :: "jsValue remote \<times> jsValue ctx" where
  "exampleMathSecond = registerRemoteMethods exampleEnv (Some (JObj [(''math'', JObj [])]))
     [''math.add''] (Some ''uu'') exampleMathHandshake None (snd exampleMathFirst)"

definition exampleFrame :: iframe where
  "exampleFrame = \<lparr>frameId = 0, src = Some ''https://guest.example'',
     contentWindow = Some (WindowRef 1)\<rparr>"

definition exampleListener :: "jsValue connectionListener" where
  "exampleListener = \<lparr>listenerId = 0, listenerSchema = exampleSchema,
     listenerCallback = UserCallback 0\<rparr>"

definition exampleHost :: "jsValue host" where
  "exampleHost = hostConnect (Some (Iframe exampleFrame)) exampleSchema (UserCallback 0) 0 newHost"

text \<open>
  A schema that \<^verbatim>\<open>JSON.stringify\<close> refuses, \<^verbatim>\<open>{add: (a, b) => a + b, limit: 10n}\<close>, and
  the record of a host after two \<open>host.connect\<close> calls for the same iframe, the first
  with that schema.
\<close>

definition exampleBigSchema :: "jsValue localSchema" where
  "exampleBigSchema = \<lparr>invoke = exampleAdd, extractMethods = [''add''],
     shape = JObj [(''limit'', JBigInt 10)]\<rparr>"




definition exampleForeignEvent :: "jsValue event" where
  "exampleForeignEvent = \<lparr>eventId = 5, data = Some (emptyPayload\<lparr>action := HANDSHAKE_REQUEST,
       methods := [''add''], schema := Some (JObj [])\<rparr>),
     source = Some (WindowRef 2), origin = ''https://other.example''\<rparr>"

definition exampleOps :: "jsValue hostOp list" where
  "exampleOps = [HostConnect WindowTarget None exampleSchema (UserCallback 0),
     Receive WindowTarget exampleHandshake,
     Receive WindowTarget (exampleHandshake\<lparr>eventId := 7\<rparr>)]"

definition exampleReplyEvent :: "jsValue event" where
  "exampleReplyEvent = \<lparr>eventId = 6, data = Some (emptyPayload\<lparr>action := HANDSHAKE_REPLY,
       connectionID := Some ''c-1'', methods := [''add''], schema := Some (JObj [])\<rparr>),
     source = Some (WindowRef 7), origin = ''https://host.example''\<rparr>"

definition exampleConnector :: "jsValue connector" where
  "exampleConnector = guestConnect exampleEnv exampleSchema (WindowRef 7) emptyCtx"

section \<open>Properties of rpc.ts\<close>

lemmas action_defs =
  HANDSHAKE_REQUEST_def HANDSHAKE_REPLY_def RPC_REQUEST_def RPC_RESOLVE_def RPC_REJECT_def

lemmas example_defs =
  exampleEnv_def exampleSchema_def exampleRequest_def exampleRequestEvent_def
  exampleOrphanEvent_def exampleHandshake_def exampleResponse_def exampleResolveEvent_def
  emptyPayload_def emptyCtx_def exampleClone_def action_defs

lemma handlers_sendResponse: "handlers (fst (sendResponse e mr ev p c)) = handlers c"
  by (simp add: sendResponse_def post_def split: option.splits)

lemma handlers_handleCall: "handlers (fst (handleCall e s m cid mr ev c)) = handlers c"
  by (simp add: handleCall_def Let_def handlers_sendResponse split: option.splits sum.splits)

lemma handlers_settle: "handlers (settle i v c) = handlers c"
  by (simp add: settle_def)

lemma handlers_handleResponse: "handlers (fst (handleResponse e n cid cD i ev c)) = handlers c"
  by (simp add: handleResponse_def handlers_settle split: option.splits)

lemma handlers_runListener: "handlers (fst (runListener e l ev c)) = handlers c"
  by (cases l) (simp_all add: handlers_handleCall handlers_handleResponse)

lemma handlers_deliverTo: "handlers (deliverTo e ev hs c) = handlers c"
  by (induction hs arbitrary: c) (simp_all add: handlers_runListener)

lemma handlers_dispatchMessage: "handlers (dispatchMessage e t ev c) = handlers c"
  by (simp add: dispatchMessage_def handlers_deliverTo)


lemma handlers_createRPC:
  "jsonClone e a = Inr a' \<Longrightarrow>
   handlers (snd (createRPC e name cid hev g mr a c))
     = handlers c @ [(nextHandler c, mr,
          HandleResponse g name cid (uuidv4 e (uuidCount c)) (length (promises c)))]"
  by (simp add: createRPC_def Let_def subscribe_def post_def split: option.splits)

lemma promises_createRPC:
  "jsonClone e a = Inr a' \<Longrightarrow>
   promises (snd (createRPC e name cid hev g mr a c)) = promises c @ [Pending]"
  by (simp add: createRPC_def Let_def subscribe_def post_def split: option.splits)

lemma fst_createRPC: "fst (createRPC e name cid hev g mr a c) = length (promises c)"
  by (simp add: createRPC_def Let_def split: sum.splits)




text \<open>
  C6, as the code has it. The \<open>handleResponse\<close> a call subscribes is not one-shot: it
  is subscribed after the call, it is still subscribed after any message, matching or not,
  and only \<open>unregisterRemote\<close> removes it. A trusted message that matches the method
  name, the connection identifier and the call identifier settles the promise of the call,
  by its result when its action is the resolve action and by its error when it is the
  reject action; a message that fails the trust check or one of the correlation fields
  changes nothing.
\<close>

theorem response_listener_persists:
  assumes "jsonClone e a = Inr a'"
  shows "let c1 = snd (createRPC e name cid hev g mr a c);
             i = fst (createRPC e name cid hev g mr a c);
             cD = uuidv4 e (uuidCount c);
             L = (nextHandler c, mr, HandleResponse g name cid cD i)
         in L \<in> set (handlers c1) \<and> promises c1 ! i = Pending
          \<and> (\<forall>ev. L \<in> set (handlers (dispatchMessage e mr ev c1)))
          \<and> (\<forall>ev d. data ev = Some d \<and> isTrustedRemote e ev \<and> callID d \<noteq> []
                 \<and> callName d \<noteq> [] \<and> callName d = name \<and> connectionID d = cid
                 \<and> callID d = cD \<longrightarrow>
               (action d = RPC_RESOLVE \<longrightarrow>
                  promises (fst (handleResponse e name cid cD i ev c1)) ! i
                    = Resolved (result d))
             \<and> (action d = RPC_REJECT \<longrightarrow>
                  promises (fst (handleResponse e name cid cD i ev c1)) ! i
                    = Rejected (error d)))
          \<and> (\<forall>ev d. data ev = Some d
                 \<and> \<not> (isTrustedRemote e ev \<and> callID d \<noteq> [] \<and> callName d \<noteq> []
                       \<and> callName d = name \<and> connectionID d = cid \<and> callID d = cD) \<longrightarrow>
               fst (handleResponse e name cid cD i ev c1) = c1)
          \<and> L \<notin> set (handlers (unregisterRemote g c1))"
proof -
  have neq: "RPC_REJECT \<noteq> RPC_RESOLVE" by (simp add: RPC_REJECT_def RPC_RESOLVE_def)
  show ?thesis
    using assms neq
    by (auto simp: Let_def handlers_createRPC promises_createRPC fst_createRPC
        handlers_dispatchMessage handleResponse_def settle_def unregisterRemote_def
        nth_append)
qed

theorem response_listener_persists_witness:
  "jsonClone exampleEnv (JArr [JNum 2, JNum 3]) = Inr (JArr [JNum 2, JNum 3])
   \<and> data exampleResolveEvent = Some exampleResponse
   \<and> isTrustedRemote exampleEnv exampleResolveEvent
   \<and> callID exampleResponse = ''u''
   \<and> callName exampleResponse = ''add'' \<and> connectionID exampleResponse = Some ''c-1''
   \<and> action exampleResponse = RPC_RESOLVE
   \<and> (0, None, HandleResponse 0 ''add'' (Some ''c-1'') ''u'' 0)
        \<in> set (handlers (dispatchMessage exampleEnv None exampleResolveEvent exampleCaller))
   \<and> promises (fst (handleResponse exampleEnv ''add'' (Some ''c-1'') ''u'' 0
                      exampleResolveEvent exampleCaller)) ! 0
        = Resolved (result exampleResponse)
   \<and> (0, None, HandleResponse 0 ''add'' (Some ''c-1'') ''u'' 0)
        \<notin> set (handlers (unregisterRemote 0 exampleCaller))"
proof -
  have h: "jsonClone exampleEnv (JArr [JNum 2, JNum 3]) = Inr (JArr [JNum 2, JNum 3])"
    by (simp add: exampleEnv_def exampleClone_def)
  have u: "uuidv4 exampleEnv (uuidCount emptyCtx) = ''u''" "nextHandler emptyCtx = 0"
    "length (promises emptyCtx) = 0"
    by (simp_all add: exampleEnv_def emptyCtx_def)
  note t = response_listener_persists [OF h, where name = "''add''" and cid = "Some ''c-1''"
      and hev = exampleHandshake and g = 0 and mr = None and c = emptyCtx,
      unfolded Let_def fst_createRPC u, folded exampleCaller_def]
  have d: "data exampleResolveEvent = Some exampleResponse"
    "isTrustedRemote exampleEnv exampleResolveEvent"
    "callID exampleResponse = ''u''" "callID exampleResponse \<noteq> []"
    "callName exampleResponse = ''add''" "callName exampleResponse \<noteq> []"
    "connectionID exampleResponse = Some ''c-1''" "action exampleResponse = RPC_RESOLVE"
    by (simp_all add: exampleResolveEvent_def exampleResponse_def exampleEnv_def
        emptyPayload_def)
  show ?thesis using t h d by blast
qed

text \<open>
  C6 as stated fails: after the call \<^verbatim>\<open>add(2, 3)\<close> the matching resolve response
  settles the promise with 5, and the listener is still subscribed.
\<close>

theorem response_listener_one_shot_counterexample:
  "promises exampleCaller = [Pending]
   \<and> promises (dispatchMessage exampleEnv None exampleResolveEvent exampleCaller)
       = [Resolved (Some (JNum 5))]
   \<and> handlers (dispatchMessage exampleEnv None exampleResolveEvent exampleCaller)
       = [(0, None, HandleResponse 0 ''add'' (Some ''c-1'') ''u'' 0)]"
  by (simp add: exampleCaller_def example_defs createRPC_def subscribe_def post_def
      receiverPost_def dispatchMessage_def handleResponse_def settle_def Let_def)

text \<open>
  C7, as the code has it. When \<open>handleCall\<close> has accepted a request and built the
  response \<open>q\<close>, exactly \<open>q\<close> is posted, once, on the first channel that applies: the
  receiver's own \<open>postMessage\<close> if it has one; otherwise the global \<open>postMessage\<close> in a
  worker context; otherwise the \<open>postMessage\<close> of the event's source, with the event's
  origin as target origin when the source is a window, and without a target otherwise.
  The last two need the event to have a source: without one, and with neither a posting
  receiver nor a worker context, nothing is posted.
\<close>

theorem response_delivery_priority:
  assumes "data ev = Some d"
    and "action d = RPC_REQUEST" and "isTrustedRemote e ev"
    and "callID d \<noteq> []" and "callName d \<noteq> []"
    and "callName d = p" and "connectionID d = cid"
    and "buildResponse e s p d (case args d of None \<Rightarrow> emptyArgs e | Some x \<Rightarrow> x) = Inr q"
  shows "(\<forall>r. mr = Some r \<and> hasPostMessage r \<longrightarrow>
            outbox (fst (handleCall e s p cid mr ev c)) = outbox c @ [(ViaReceiver r, q)])
       \<and> ((\<forall>r. mr = Some r \<longrightarrow> \<not> hasPostMessage r) \<and> isWorker e \<longrightarrow>
            outbox (fst (handleCall e s p cid mr ev c)) = outbox c @ [(ViaGlobal, q)])
       \<and> (\<forall>w. (\<forall>r. mr = Some r \<longrightarrow> \<not> hasPostMessage r) \<and> \<not> isWorker e
              \<and> source ev = Some w \<and> isWindow w \<longrightarrow>
            outbox (fst (handleCall e s p cid mr ev c))
              = outbox c @ [(ViaSource w (Some (origin ev)), q)])
       \<and> (\<forall>w. (\<forall>r. mr = Some r \<longrightarrow> \<not> hasPostMessage r) \<and> \<not> isWorker e
              \<and> source ev = Some w \<and> \<not> isWindow w \<longrightarrow>
            outbox (fst (handleCall e s p cid mr ev c)) = outbox c @ [(ViaSource w None, q)])
       \<and> ((\<forall>r. mr = Some r \<longrightarrow> \<not> hasPostMessage r) \<and> \<not> isWorker e
              \<and> source ev = None \<longrightarrow>
            outbox (fst (handleCall e s p cid mr ev c)) = outbox c)"
  using assms
  by (auto simp: handleCall_def sendResponse_def receiverPost_def post_def Let_def
      split: option.splits)

theorem response_delivery_priority_witness:
  "data exampleRequestEvent = Some exampleRequest
   \<and> action exampleRequest = RPC_REQUEST \<and> isTrustedRemote exampleEnv exampleRequestEvent
   \<and> callID exampleRequest \<noteq> [] \<and> callName exampleRequest \<noteq> []
   \<and> callName exampleRequest = ''add'' \<and> connectionID exampleRequest = Some ''c-1''
   \<and> buildResponse exampleEnv exampleSchema ''add'' exampleRequest (JArr [JNum 2, JNum 3])
       = Inr exampleResponse
   \<and> \<not> isWorker exampleEnv \<and> source exampleRequestEvent = Some (WindowRef 1)
   \<and> isWindow (WindowRef 1)
   \<and> outbox (fst (handleCall exampleEnv exampleSchema ''add'' (Some ''c-1'') None
                    exampleRequestEvent emptyCtx))
       = outbox emptyCtx
           @ [(ViaSource (WindowRef 1) (Some (origin exampleRequestEvent)), exampleResponse)]
   \<and> data exampleOrphanEvent = Some exampleRequest
   \<and> isTrustedRemote exampleEnv exampleOrphanEvent \<and> source exampleOrphanEvent = None
   \<and> outbox (fst (handleCall exampleEnv exampleSchema ''add'' (Some ''c-1'') None
                    exampleOrphanEvent emptyCtx)) = outbox emptyCtx"
  using response_delivery_priority [where ev = exampleRequestEvent and d = exampleRequest
      and e = exampleEnv and p = "''add''" and cid = "Some ''c-1''" and s = exampleSchema
      and q = exampleResponse and mr = None and c = emptyCtx]
    response_delivery_priority [where ev = exampleOrphanEvent and d = exampleRequest
      and e = exampleEnv and p = "''add''" and cid = "Some ''c-1''" and s = exampleSchema
      and q = exampleResponse and mr = None and c = emptyCtx]
  by (simp add: example_defs exampleResponse_def buildResponse_def)

text \<open>
  C7 as stated fails: it has the response always sent, on the source's \<open>postMessage\<close>
  when nothing comes before it. The request below is accepted and its response is built,
  but the event has no source, the listener has no receiver and the context is no worker:
  \<open>handleCall\<close> throws at \<^verbatim>\<open>event.source.window\<close> and the response is posted on no
  channel.
\<close>

theorem response_delivery_priority_counterexample:
  "data exampleOrphanEvent = Some exampleRequest
   \<and> action exampleRequest = RPC_REQUEST \<and> isTrustedRemote exampleEnv exampleOrphanEvent
   \<and> callID exampleRequest \<noteq> [] \<and> callName exampleRequest \<noteq> []
   \<and> callName exampleRequest = ''add'' \<and> connectionID exampleRequest = Some ''c-1''
   \<and> buildResponse exampleEnv exampleSchema ''add'' exampleRequest (JArr [JNum 2, JNum 3])
       = Inr exampleResponse
   \<and> \<not> isWorker exampleEnv \<and> source exampleOrphanEvent = None
   \<and> calls (fst (handleCall exampleEnv exampleSchema ''add'' (Some ''c-1'') None
                   exampleOrphanEvent emptyCtx)) = [(''add'', JArr [JNum 2, JNum 3])]
   \<and> outbox (fst (handleCall exampleEnv exampleSchema ''add'' (Some ''c-1'') None
                    exampleOrphanEvent emptyCtx)) = []"
  by (simp add: example_defs exampleResponse_def handleCall_def sendResponse_def
      receiverPost_def buildResponse_def)







lemma handleCall_response:
  "data ev = Some d \<Longrightarrow> action d \<noteq> RPC_REQUEST \<Longrightarrow>
   handleCall e s m cid mr ev c = (c, Returned)"
  by (simp add: handleCall_def)











lemma outbox_createRPC:
  assumes "jsonClone e a = Inr a'"
    and "outbox (snd (createRPC e name cid hev g mr a c)) = outbox c @ [(ch, req)]"
  shows "req = emptyPayload\<lparr>action := RPC_REQUEST, args := Some a',
           callID := uuidv4 e (uuidCount c), callName := name, connectionID := cid\<rparr>"
  using assms
  by (auto simp: createRPC_def Let_def subscribe_def post_def
      split: option.splits if_splits)








text \<open>
  Remote objects built from one event share the objects of its schema. After the first
  negotiation the path \<^verbatim>\<open>math.add\<close> of the first remote object holds the proxy of the first
  connection; the second negotiation sets its own proxy into the same object
  \<^verbatim>\<open>math\<close>, and from then on both remote objects hold the proxy of the second connection
  there.
\<close>

lemma shared_schema_object:
  "proxyAt exampleEnv (fst exampleMathFirst) [''math'', ''add''] (snd exampleMathFirst)
     = Some \<lparr>proxyName = ''math.add'', proxyConnection = Some ''u'',
              proxyEvent = exampleMathHandshake, proxyRegistry = 0, proxyReceiver = None\<rparr>
   \<and> proxyAt exampleEnv (fst exampleMathFirst) [''math'', ''add''] (snd exampleMathSecond)
     = Some \<lparr>proxyName = ''math.add'', proxyConnection = Some ''uu'',
              proxyEvent = exampleMathHandshake, proxyRegistry = 1, proxyReceiver = None\<rparr>
   \<and> proxyAt exampleEnv (fst exampleMathSecond) [''math'', ''add''] (snd exampleMathSecond)
     = Some \<lparr>proxyName = ''math.add'', proxyConnection = Some ''uu'',
              proxyEvent = exampleMathHandshake, proxyRegistry = 1, proxyReceiver = None\<rparr>"
  by code_simp










section \<open>Properties of host.ts\<close>

text \<open>
  C9. The exported \<open>connect\<close> with no guest rejects with the error
  \<^verbatim>\<open>a target is required\<close> and leaves the context as it was: the map \<open>hosts\<close> and
  the subscribed \<open>mainListener\<close>s are those of before.
\<close>

theorem null_guest_rejected:
  "connect None s n w = (Inl (ErrorMsg ''a target is required''), w)
   \<and> hosts (snd (connect None s n w)) = hosts w
   \<and> targetListeners (snd (connect None s n w)) = targetListeners w"
  by (simp add: connect_def)

subsection \<open>The count of pending connections\<close>

lemma pending_closeConnection:
  "pendingConnections (fst (closeConnection cn st)) = pendingConnections (fst st)"
  by (simp add: closeConnection_def)

lemma pending_closeAll_aux:
  "pendingConnections (fst (fold closeConnection cns st)) = pendingConnections (fst st)"
  by (induction cns arbitrary: st) (simp_all add: pending_closeConnection)

lemma pending_closeAll: "pendingConnections (fst (closeAll st)) = pendingConnections (fst st)"
  by (simp add: closeAll_def pending_closeAll_aux)

lemma pending_hostStop:
  "pendingConnections (fst (hostStop t b st)) = pendingConnections (fst st)"
  by (simp add: hostStop_def Let_def pending_closeAll)

lemma hosts_hostStop:
  "set (hosts (snd (hostStop t b st))) \<subseteq> set (hosts (snd st))"
  by (auto simp: hostStop_def Let_def)

lemma pending_hostDisconnect:
  "pendingConnections (fst (hostDisconnect i st)) = pendingConnections (fst st)"
  by (simp add: hostDisconnect_def pending_closeConnection split: option.splits)

lemma pending_negotiateConnection:
  "pendingConnections (fst (snd (negotiateConnection e g ad s ev st)))
     = pendingConnections (fst st)"
  by (simp add: negotiateConnection_def Let_def split: option.splits sum.splits)

lemma pending_hostConnect:
  "pendingConnections (hostConnect g s cb n h) = pendingConnections h + 1"
  by (simp add: hostConnect_def Let_def)

lemma runCallback_pending:
  "pendingConnections (fst (runCallback t cb cn st)) = pendingConnections (fst st)"
  by (cases cb) (simp_all add: Let_def pending_hostStop)

lemma runCallback_hosts:
  "set (hosts (snd (runCallback t cb cn st))) \<subseteq> set (hosts (snd st))"
  using hosts_hostStop [of t False st]
  by (cases cb) (auto simp: Let_def)

lemma runConnectionListener_pending:
  "runConnectionListener e t g l ev st = (st', Returned) \<Longrightarrow>
   pendingConnections (fst st') = max (pendingConnections (fst st) - 1) 0"
  using pending_negotiateConnection [of e g "messageReceiver t" "listenerSchema l" ev
      "(fst st, rpc (snd st))"]
  by (auto simp: runConnectionListener_def Let_def runCallback_pending
      split: prod.splits sum.splits)

lemma runConnectionListener_good:
  assumes "0 \<le> pendingConnections (fst st)"
    and "\<forall>h \<in> snd ` set (hosts (snd st)). 0 \<le> pendingConnections h"
  shows "0 \<le> pendingConnections (fst (fst (runConnectionListener e t g l ev st)))
       \<and> (\<forall>h \<in> snd ` set (hosts (snd (fst (runConnectionListener e t g l ev st)))).
             0 \<le> pendingConnections h)"
proof (cases "negotiateConnection e g (messageReceiver t) (listenerSchema l) ev
               (fst st, rpc (snd st))")
  case (fields r h1 c1)
  have p: "pendingConnections h1 = pendingConnections (fst st)"
    using pending_negotiateConnection [of e g "messageReceiver t" "listenerSchema l" ev
        "(fst st, rpc (snd st))"] fields by simp
  show ?thesis
  proof (cases r)
    case (Inl x)
    with fields p assms show ?thesis by (simp add: runConnectionListener_def)
  next
    case (Inr cn)
    let ?st2 = "(h1\<lparr>pendingConnections := max (pendingConnections h1 - 1) 0,
        connectionListeners := AList.map_entry g
          (filter (\<lambda>x. listenerId x \<noteq> listenerId l)) (connectionListeners h1)\<rparr>,
        (snd st)\<lparr>rpc := c1\<rparr>)"
    have res: "fst (runConnectionListener e t g l ev st)
        = runCallback t (listenerCallback l) cn ?st2"
      using fields Inr by (simp add: runConnectionListener_def Let_def)
    have "set (hosts (snd (runCallback t (listenerCallback l) cn ?st2))) \<subseteq> set (hosts (snd st))"
      using runCallback_hosts [of t "listenerCallback l" cn ?st2] by simp
    with assms(2) show ?thesis
      by (auto simp: res runCallback_pending)
  qed
qed

lemma forListeners_good:
  assumes "0 \<le> pendingConnections (fst st)"
    and "\<forall>h \<in> snd ` set (hosts (snd st)). 0 \<le> pendingConnections h"
  shows "0 \<le> pendingConnections (fst (fst (forListeners e t g ev ls st)))
       \<and> (\<forall>h \<in> snd ` set (hosts (snd (fst (forListeners e t g ev ls st)))).
             0 \<le> pendingConnections h)"
  using assms
proof (induction ls arbitrary: st)
  case Nil
  then show ?case by simp
next
  case (Cons l ls)
  note step = runConnectionListener_good [OF Cons.prems, of e t g l ev]
  show ?case
  proof (cases "listenerId l \<in> listenerId ` set (listenersFor g (fst st))")
    case False
    then show ?thesis using Cons.IH [OF Cons.prems] by simp
  next
    case True
    obtain st1 r where run: "runConnectionListener e t g l ev st = (st1, r)"
      by (cases "runConnectionListener e t g l ev st")
    from step run have good1: "0 \<le> pendingConnections (fst st1)"
      "\<forall>h \<in> snd ` set (hosts (snd st1)). 0 \<le> pendingConnections h"
      by simp_all
    show ?thesis
    proof (cases r)
      case Returned
      with True run show ?thesis using Cons.IH [OF good1] by simp
    next
      case (Threw x)
      with True run good1 show ?thesis by simp
    qed
  qed
qed

lemma forGuests_good:
  assumes "0 \<le> pendingConnections (fst st)"
    and "\<forall>h \<in> snd ` set (hosts (snd st)). 0 \<le> pendingConnections h"
  shows "0 \<le> pendingConnections (fst (fst (forGuests e t ev gs st)))
       \<and> (\<forall>h \<in> snd ` set (hosts (snd (fst (forGuests e t ev gs st)))).
             0 \<le> pendingConnections h)"
  using assms
proof (induction gs arbitrary: st)
  case Nil
  then show ?case by simp
next
  case (Cons g gs)
  show ?case
  proof (cases "skipped e ev g")
    case True
    then show ?thesis using Cons.IH [OF Cons.prems] by simp
  next
    case False
    obtain st1 r where run: "forListeners e t g ev (listenersFor g (fst st)) st = (st1, r)"
      by (cases "forListeners e t g ev (listenersFor g (fst st)) st")
    from forListeners_good [OF Cons.prems, of e t g ev "listenersFor g (fst st)"] run
    have good1: "0 \<le> pendingConnections (fst st1)"
      "\<forall>h \<in> snd ` set (hosts (snd st1)). 0 \<le> pendingConnections h"
      by simp_all
    show ?thesis
    proof (cases r)
      case Returned
      with False run show ?thesis using Cons.IH [OF good1] by simp
    next
      case (Threw x)
      with False run good1 show ?thesis by simp
    qed
  qed
qed

lemma mainListener_good:
  assumes "0 \<le> pendingConnections (fst st)"
    and "\<forall>h \<in> snd ` set (hosts (snd st)). 0 \<le> pendingConnections h"
  shows "0 \<le> pendingConnections (fst (fst (mainListener e t ev st)))
       \<and> (\<forall>h \<in> snd ` set (hosts (snd (fst (mainListener e t ev st)))).
             0 \<le> pendingConnections h)"
  using assms forGuests_good [OF assms, of e t ev "map fst (connectionListeners (fst st))"]
  by (auto simp: mainListener_def split: option.splits)

lemma set_update_subset: "set (AList.update k v al) \<subseteq> insert (k, v) (set al)"
  by (induction al) auto

lemma putHost_good:
  assumes "0 \<le> pendingConnections (fst st)"
    and "\<forall>h \<in> snd ` set (hosts (snd st)). 0 \<le> pendingConnections h"
  shows "\<forall>h \<in> snd ` set (hosts (putHost t st)). 0 \<le> pendingConnections h"
proof
  fix h
  assume "h \<in> snd ` set (hosts (putHost t st))"
  then obtain k where k: "(k, h) \<in> set (hosts (putHost t st))" by auto
  have "set (hosts (putHost t st)) \<subseteq> insert (t, fst st) (set (hosts (snd st)))"
    using set_update_subset [of t "fst st" "hosts (snd st)"]
    by (auto simp: putHost_def)
  with k have "h = fst st \<or> (k, h) \<in> set (hosts (snd st))" by auto
  then show "0 \<le> pendingConnections h"
  proof
    assume "h = fst st"
    with assms(1) show ?thesis by simp
  next
    assume "(k, h) \<in> set (hosts (snd st))"
    then have "h \<in> snd ` set (hosts (snd st))" by force
    with assms(2) show ?thesis by blast
  qed
qed

lemma findOrCreateHostFor_good:
  assumes "\<forall>h \<in> snd ` set (hosts w). 0 \<le> pendingConnections h"
  shows "\<forall>h \<in> snd ` set (hosts (findOrCreateHostFor t w)). 0 \<le> pendingConnections h"
proof -
  have "set (AList.update t newHost (hosts w)) \<subseteq> insert (t, newHost) (set (hosts w))"
    by (rule set_update_subset)
  moreover have "0 \<le> pendingConnections (newHost :: 'a host)"
    by (simp add: newHost_def)
  ultimately show ?thesis
    using assms by (fastforce simp: findOrCreateHostFor_def split: option.splits)
qed

lemma connectOn_good:
  assumes "\<forall>h \<in> snd ` set (hosts w). 0 \<le> pendingConnections h"
  shows "\<forall>h \<in> snd ` set (hosts (connectOn t g s cb w)). 0 \<le> pendingConnections h"
proof -
  let ?w1 = "findOrCreateHostFor t w"
  note w1 = findOrCreateHostFor_good [OF assms, of t]
  show ?thesis
  proof (cases "map_of (hosts ?w1) t")
    case None
    with w1 show ?thesis by (simp add: connectOn_def Let_def)
  next
    case (Some h)
    then have "(t, h) \<in> set (hosts ?w1)" by (rule map_of_SomeD)
    then have "h \<in> snd ` set (hosts ?w1)" by force
    with w1 have "0 \<le> pendingConnections h" by blast
    then have "0 \<le> pendingConnections (hostConnect g s cb (nextListener ?w1) h)"
      by (simp add: pending_hostConnect)
    from putHost_good [of "(hostConnect g s cb (nextListener ?w1) h,
          ?w1\<lparr>nextListener := Suc (nextListener ?w1)\<rparr>)" t] this w1
    show ?thesis using Some by (simp add: connectOn_def Let_def)
  qed
qed

lemma receive_good:
  assumes "\<forall>h \<in> snd ` set (hosts w). 0 \<le> pendingConnections h"
  shows "\<forall>h \<in> snd ` set (hosts (receive e t ev w)). 0 \<le> pendingConnections h"
proof (cases "map_of (hosts w) t")
  case None
  with assms show ?thesis by (simp add: receive_def)
next
  case (Some h)
  then have "(t, h) \<in> set (hosts w)" by (rule map_of_SomeD)
  then have "h \<in> snd ` set (hosts w)" by force
  with assms have "0 \<le> pendingConnections h" by blast
  from mainListener_good [of "(h, w)" e t ev] this assms
  have "0 \<le> pendingConnections (fst (fst (mainListener e t ev (h, w))))
      \<and> (\<forall>h \<in> snd ` set (hosts (snd (fst (mainListener e t ev (h, w))))).
            0 \<le> pendingConnections h)"
    by simp
  then show ?thesis
    using Some putHost_good [of "fst (mainListener e t ev (h, w))" t]
    by (simp add: receive_def)
qed

lemma disconnectOn_good:
  assumes "\<forall>h \<in> snd ` set (hosts w). 0 \<le> pendingConnections h"
  shows "\<forall>h \<in> snd ` set (hosts (disconnectOn t i w)). 0 \<le> pendingConnections h"
proof (cases "map_of (hosts w) t")
  case None
  with assms show ?thesis by (simp add: disconnectOn_def)
next
  case (Some h)
  then have "(t, h) \<in> set (hosts w)" by (rule map_of_SomeD)
  then have "h \<in> snd ` set (hosts w)" by force
  with assms have "0 \<le> pendingConnections h" by blast
  then have "0 \<le> pendingConnections (fst (hostDisconnect i (h, rpc w)))"
    by (simp add: pending_hostDisconnect)
  from putHost_good [of "(fst (hostDisconnect i (h, rpc w)),
        w\<lparr>rpc := snd (hostDisconnect i (h, rpc w))\<rparr>)" t] this assms
  show ?thesis using Some by (simp add: disconnectOn_def Let_def)
qed

lemma stopOn_good:
  assumes "\<forall>h \<in> snd ` set (hosts w). 0 \<le> pendingConnections h"
  shows "\<forall>h \<in> snd ` set (hosts (stopOn t b w)). 0 \<le> pendingConnections h"
proof (cases "map_of (hosts w) t")
  case None
  with assms show ?thesis by (simp add: stopOn_def)
next
  case (Some h)
  have "set (hosts (snd (hostStop t b (h, w)))) \<subseteq> set (hosts w)"
    using hosts_hostStop [of t b "(h, w)"] by simp
  with assms Some show ?thesis by (auto simp: stopOn_def)
qed

lemma hostStep_good:
  assumes "\<forall>h \<in> snd ` set (hosts w). 0 \<le> pendingConnections h"
  shows "\<forall>h \<in> snd ` set (hosts (hostStep e op w)). 0 \<le> pendingConnections h"
proof (cases op)
  case (Connect g s n)
  then show ?thesis
    using assms connectOn_good [OF assms]
    by (cases g) (simp_all add: connect_def)
next
  case (HostConnect t g s cb)
  then show ?thesis using connectOn_good [OF assms] by simp
next
  case (Serve t)
  then show ?thesis using findOrCreateHostFor_good [OF assms] by (simp add: serve_def)
next
  case (Receive t ev)
  then show ?thesis using receive_good [OF assms] by simp
next
  case (Disconnect t i)
  then show ?thesis using disconnectOn_good [OF assms] by simp
next
  case (Stop t b)
  then show ?thesis using stopOn_good [OF assms] by simp
qed

lemma hostRun_good:
  "\<forall>h \<in> snd ` set (hosts w). 0 \<le> pendingConnections h \<Longrightarrow>
   \<forall>h \<in> snd ` set (hosts (hostRun e ops w)). 0 \<le> pendingConnections h"
  unfolding hostRun_def
proof (induction ops arbitrary: w)
  case Nil
  then show ?case by simp
next
  case (Cons op ops)
  from hostStep_good [OF Cons.prems]
  have "\<forall>h \<in> snd ` set (hosts (hostStep e op w)). 0 \<le> pendingConnections h" .
  from Cons.IH [OF this] show ?case by simp
qed

text \<open>
  C10. Whatever the host side is asked to do, from the empty context or from any context
  whose records have a non-negative count, the count \<open>pendingConnections\<close> of every
  record in \<open>hosts\<close> is non-negative. \<open>host.connect\<close> adds one to it, and a
  \<open>listener\<close> that has negotiated its connection sets it to the maximum of the count
  less one and zero.
\<close>

theorem pending_count_non_negative:
  "(\<forall>h \<in> snd ` set (hosts (hostRun e ops emptyWorld)). 0 \<le> pendingConnections h)
   \<and> ((\<forall>h \<in> snd ` set (hosts w). 0 \<le> pendingConnections h) \<longrightarrow>
        (\<forall>h \<in> snd ` set (hosts (hostRun e ops w)). 0 \<le> pendingConnections h))
   \<and> pendingConnections (hostConnect g s cb n h0) = pendingConnections h0 + 1
   \<and> (\<forall>st'. runConnectionListener e t g l ev st = (st', Returned) \<longrightarrow>
         pendingConnections (fst st') = max (pendingConnections (fst st) - 1) 0)"
proof -
  have "\<forall>h \<in> snd ` set (hosts (emptyWorld :: 'a world)). 0 \<le> pendingConnections h"
    by (simp add: emptyWorld_def)
  then have "\<forall>h \<in> snd ` set (hosts (hostRun e ops emptyWorld)). 0 \<le> pendingConnections h"
    by (rule hostRun_good)
  moreover have "(\<forall>h \<in> snd ` set (hosts w). 0 \<le> pendingConnections h) \<longrightarrow>
        (\<forall>h \<in> snd ` set (hosts (hostRun e ops w)). 0 \<le> pendingConnections h)"
    using hostRun_good [of w e ops] by blast
  moreover have "\<forall>st'. runConnectionListener e t g l ev st = (st', Returned) \<longrightarrow>
         pendingConnections (fst st') = max (pendingConnections (fst st) - 1) 0"
    using runConnectionListener_pending [of e t g l ev st] by blast
  moreover have "pendingConnections (hostConnect g s cb n h0) = pendingConnections h0 + 1"
    by (rule pending_hostConnect)
  ultimately show ?thesis by blast
qed

subsection \<open>One handshake request, two listeners\<close>

lemma runCallback_fst: "fst (runCallback t cb cn st) = fst st"
  by (cases cb) (simp_all add: Let_def hostStop_def)











subsection \<open>A guest that is skipped\<close>

lemma map_of_filter_other:
  "g' \<noteq> g \<Longrightarrow> map_of (filter (\<lambda>kv. fst kv \<noteq> g) al) g' = map_of al g'"
  by (induction al) auto

lemma map_entry_filter_other:
  "g' \<noteq> g \<Longrightarrow>
   filter (\<lambda>kv. fst kv \<noteq> g) (AList.map_entry g' f al)
     = AList.map_entry g' f (filter (\<lambda>kv. fst kv \<noteq> g) al)"
  by (induction al) auto

lemma map_of_map_entry_other:
  "g' \<noteq> g \<Longrightarrow> map_of (AList.map_entry g' f al) g = map_of al g"
  by (induction al) auto

lemma listenersFor_without:
  "g' \<noteq> g \<Longrightarrow>
   listenersFor g' (h\<lparr>connectionListeners :=
       filter (\<lambda>kv. fst kv \<noteq> g) (connectionListeners h)\<rparr>) = listenersFor g' h"
  by (simp add: listenersFor_def map_of_filter_other)

lemma negotiateConnection_listeners:
  "negotiateConnection e g' ad s ev (h\<lparr>connectionListeners := X\<rparr>, c)
     = (case negotiateConnection e g' ad s ev (h, c) of
          (r, h1, c1) \<Rightarrow> (r, h1\<lparr>connectionListeners := X\<rparr>, c1))"
  by (simp add: negotiateConnection_def Let_def split: option.splits sum.splits)

lemma negotiateConnection_keeps_listeners:
  "connectionListeners (fst (snd (negotiateConnection e g' ad s ev (h, c))))
     = connectionListeners h"
  by (simp add: negotiateConnection_def Let_def split: option.splits sum.splits)

lemma runCallback_without:
  "runCallback t cb cn (h\<lparr>connectionListeners := X\<rparr>, w)
     = (h\<lparr>connectionListeners := X\<rparr>, snd (runCallback t cb cn (h, w)))"
  by (cases cb) (simp_all add: Let_def hostStop_def)

lemma runConnectionListener_without:
  assumes "g' \<noteq> g"
  shows "runConnectionListener e t g' l ev
           (h\<lparr>connectionListeners := filter (\<lambda>kv. fst kv \<noteq> g) (connectionListeners h)\<rparr>, w)
         = (case runConnectionListener e t g' l ev (h, w) of
              ((h', w'), r) \<Rightarrow>
                ((h'\<lparr>connectionListeners :=
                      filter (\<lambda>kv. fst kv \<noteq> g) (connectionListeners h')\<rparr>, w'), r))"
proof -
  obtain r h1 c1 where n: "negotiateConnection e g' (messageReceiver t) (listenerSchema l) ev
      (h, rpc w) = (r, h1, c1)"
    by (cases "negotiateConnection e g' (messageReceiver t) (listenerSchema l) ev (h, rpc w)")
  have k: "connectionListeners h1 = connectionListeners h"
    using negotiateConnection_keeps_listeners [of e g' "messageReceiver t" "listenerSchema l"
        ev h "rpc w"] n by simp
  show ?thesis
  proof (cases r)
    case (Inl x)
    then show ?thesis
      by (simp add: runConnectionListener_def negotiateConnection_listeners n k)
  next
    case (Inr cn)
    let ?f = "filter (\<lambda>x. listenerId x \<noteq> listenerId l)"
    let ?F = "filter (\<lambda>kv. fst kv \<noteq> g) (connectionListeners h)"
    let ?h2 = "h1\<lparr>pendingConnections := max (pendingConnections h1 - 1) 0,
        connectionListeners := AList.map_entry g' ?f (connectionListeners h1)\<rparr>"
    obtain W where cbR: "runCallback t (listenerCallback l) cn (?h2, w\<lparr>rpc := c1\<rparr>) = (?h2, W)"
      using runCallback_fst [of t "listenerCallback l" cn "(?h2, w\<lparr>rpc := c1\<rparr>)"]
      by (cases "runCallback t (listenerCallback l) cn (?h2, w\<lparr>rpc := c1\<rparr>)") simp
    have cbL: "runCallback t (listenerCallback l) cn
        (?h2\<lparr>connectionListeners := AList.map_entry g' ?f ?F\<rparr>, w\<lparr>rpc := c1\<rparr>)
        = (?h2\<lparr>connectionListeners := AList.map_entry g' ?f ?F\<rparr>, W)"
      using runCallback_without [where t = t and cb = "listenerCallback l" and cn = cn
          and h = ?h2 and X = "AList.map_entry g' ?f ?F" and w = "w\<lparr>rpc := c1\<rparr>"] cbR
      by simp
    have R: "runConnectionListener e t g' l ev (h, w) = ((?h2, W), Returned)"
      using cbR by (simp add: runConnectionListener_def n Inr Let_def)
    have L: "runConnectionListener e t g' l ev (h\<lparr>connectionListeners := ?F\<rparr>, w)
        = ((?h2\<lparr>connectionListeners := AList.map_entry g' ?f ?F\<rparr>, W), Returned)"
      using cbL by (simp add: runConnectionListener_def negotiateConnection_listeners n Inr Let_def)
    show ?thesis
      unfolding L R using assms by (simp add: k map_entry_filter_other)
  qed
qed


lemma forListeners_without:
  assumes "g' \<noteq> g"
  shows "forListeners e t g' ev ls
           (h\<lparr>connectionListeners := filter (\<lambda>kv. fst kv \<noteq> g) (connectionListeners h)\<rparr>, w)
         = (case forListeners e t g' ev ls (h, w) of
              ((h', w'), r) \<Rightarrow>
                ((h'\<lparr>connectionListeners :=
                      filter (\<lambda>kv. fst kv \<noteq> g) (connectionListeners h')\<rparr>, w'), r))"
proof (induction ls arbitrary: h w)
  case Nil
  then show ?case by simp
next
  case (Cons l ls)
  obtain h1 w1 r1 where run: "runConnectionListener e t g' l ev (h, w) = ((h1, w1), r1)"
    by (cases "runConnectionListener e t g' l ev (h, w)") auto
  have run': "runConnectionListener e t g' l ev
      (h\<lparr>connectionListeners := filter (\<lambda>kv. fst kv \<noteq> g) (connectionListeners h)\<rparr>, w)
      = ((h1\<lparr>connectionListeners := filter (\<lambda>kv. fst kv \<noteq> g) (connectionListeners h1)\<rparr>,
          w1), r1)"
    using runConnectionListener_without [OF assms, of e t l ev h w] run by simp
  show ?case
    using Cons.IH [of h w] Cons.IH [of h1 w1]
    by (cases r1) (simp_all add: listenersFor_without [OF assms] run run')
qed

lemma runConnectionListener_keeps:
  assumes "g' \<noteq> g"
  shows "listenersFor g (fst (fst (runConnectionListener e t g' l ev st))) = listenersFor g (fst st)"
proof -
  obtain r h1 c1 where n: "negotiateConnection e g' (messageReceiver t) (listenerSchema l) ev
      (fst st, rpc (snd st)) = (r, h1, c1)"
    by (cases "negotiateConnection e g' (messageReceiver t) (listenerSchema l) ev
          (fst st, rpc (snd st))")
  have k: "connectionListeners h1 = connectionListeners (fst st)"
    using negotiateConnection_keeps_listeners [of e g' "messageReceiver t" "listenerSchema l"
        ev "fst st" "rpc (snd st)"] n by simp
  show ?thesis
    using assms
    by (cases r)
      (simp_all add: runConnectionListener_def n Let_def runCallback_fst listenersFor_def k
        map_of_map_entry_other)
qed

lemma forListeners_keeps:
  assumes "g' \<noteq> g"
  shows "listenersFor g (fst (fst (forListeners e t g' ev ls st))) = listenersFor g (fst st)"
proof (induction ls arbitrary: st)
  case Nil
  then show ?case by simp
next
  case (Cons l ls)
  obtain st1 r1 where run: "runConnectionListener e t g' l ev st = (st1, r1)"
    by (cases "runConnectionListener e t g' l ev st")
  have "listenersFor g (fst st1) = listenersFor g (fst st)"
    using runConnectionListener_keeps [OF assms, of e t l ev st] run by simp
  then show ?case
    using Cons.IH [of st] Cons.IH [of st1]
    by (cases r1) (simp_all add: run)
qed

lemma forGuests_keeps:
  assumes "skipped e ev g"
  shows "listenersFor g (fst (fst (forGuests e t ev gs st))) = listenersFor g (fst st)"
proof (induction gs arbitrary: st)
  case Nil
  then show ?case by simp
next
  case (Cons g' gs)
  show ?case
  proof (cases "skipped e ev g'")
    case True
    then show ?thesis using Cons.IH [of st] by simp
  next
    case False
    with assms have ne: "g' \<noteq> g" by auto
    obtain st1 r1 where run: "forListeners e t g' ev (listenersFor g' (fst st)) st = (st1, r1)"
      by (cases "forListeners e t g' ev (listenersFor g' (fst st)) st")
    have "listenersFor g (fst st1) = listenersFor g (fst st)"
      using forListeners_keeps [OF ne, of e t ev "listenersFor g' (fst st)" st] run by simp
    then show ?thesis
      using False Cons.IH [of st1]
      by (cases r1) (simp_all add: run)
  qed
qed

lemma forGuests_without:
  assumes "skipped e ev g"
  shows "forGuests e t ev (filter (\<lambda>x. x \<noteq> g) gs)
           (h\<lparr>connectionListeners := filter (\<lambda>kv. fst kv \<noteq> g) (connectionListeners h)\<rparr>, w)
         = (case forGuests e t ev gs (h, w) of
              ((h', w'), r) \<Rightarrow>
                ((h'\<lparr>connectionListeners :=
                      filter (\<lambda>kv. fst kv \<noteq> g) (connectionListeners h')\<rparr>, w'), r))"
proof (induction gs arbitrary: h w)
  case Nil
  then show ?case by simp
next
  case (Cons g' gs)
  show ?case
  proof (cases "g' = g")
    case True
    with assms show ?thesis using Cons.IH [of h w] by simp
  next
    case ne: False
    show ?thesis
    proof (cases "skipped e ev g'")
      case True
      with ne show ?thesis using Cons.IH [of h w] by simp
    next
      case False
      obtain h1 w1 r1 where
        run: "forListeners e t g' ev (listenersFor g' h) (h, w) = ((h1, w1), r1)"
        by (cases "forListeners e t g' ev (listenersFor g' h) (h, w)") auto
      have run': "forListeners e t g' ev (listenersFor g' h)
          (h\<lparr>connectionListeners := filter (\<lambda>kv. fst kv \<noteq> g) (connectionListeners h)\<rparr>, w)
          = ((h1\<lparr>connectionListeners :=
                 filter (\<lambda>kv. fst kv \<noteq> g) (connectionListeners h1)\<rparr>, w1), r1)"
        using forListeners_without [OF ne, of e t ev "listenersFor g' h" h w] run by simp
      show ?thesis
        using ne False Cons.IH [of h1 w1]
        by (cases r1) (simp_all add: listenersFor_without [OF ne] run run')
    qed
  qed
qed

lemma forGuests_all_skipped:
  "\<forall>g \<in> set gs. skipped e ev g \<Longrightarrow> forGuests e t ev gs st = (st, Returned)"
  by (induction gs) simp_all

lemma mainListener_without:
  assumes "skipped e ev g"
  shows "mainListener e t ev
           (h\<lparr>connectionListeners := filter (\<lambda>kv. fst kv \<noteq> g) (connectionListeners h)\<rparr>, w)
         = (case mainListener e t ev (h, w) of
              ((h', w'), r) \<Rightarrow>
                ((h'\<lparr>connectionListeners :=
                      filter (\<lambda>kv. fst kv \<noteq> g) (connectionListeners h')\<rparr>, w'), r))"
proof -
  have keys: "map fst (filter (\<lambda>kv. fst kv \<noteq> g) (connectionListeners h))
      = filter (\<lambda>x. x \<noteq> g) (map fst (connectionListeners h))"
    by (simp add: filter_map o_def)
  note loops = forGuests_without [OF assms, of t "map fst (connectionListeners h)" h w]
  show ?thesis
  proof (cases "data ev")
    case None
    then show ?thesis by (simp add: mainListener_def)
  next
    case (Some d)
    show ?thesis
    proof (cases "source ev = None \<or> origin ev = []")
      case True
      with Some show ?thesis by (auto simp: mainListener_def)
    next
      case False
      then obtain sender where present: "source ev = Some sender" "origin ev \<noteq> []"
        by auto
      show ?thesis
      proof (cases "action d = HANDSHAKE_REQUEST")
        case True
        with Some present loops show ?thesis by (simp add: mainListener_def keys)
      next
        case False
        with Some present show ?thesis by (simp add: mainListener_def)
      qed
    qed
  qed
qed

text \<open>
  C8. An iframe guest whose \<^verbatim>\<open>src\<close> origin differs from the event's origin, or whose
  \<^verbatim>\<open>contentWindow\<close> differs from the event's source, takes no part in what
  \<open>mainListener\<close> does with the event: its listener set afterwards is the one of
  before, and the outcome (the completion, the context, the map of connections, the count,
  the listener sets of the other guests) is the outcome on the record without that guest.
  For a handshake request on a record where it is the only guest, nothing changes at all:
  the map of connections is the one of before.
\<close>

theorem iframe_guard:
  assumes "Some (origin ev) \<noteq> getOriginFromURL e (src fr) \<or> source ev \<noteq> contentWindow fr"
  shows "listenersFor (Some (Iframe fr)) (fst (fst (mainListener e t ev (h, w))))
           = listenersFor (Some (Iframe fr)) h
       \<and> mainListener e t ev
           (h\<lparr>connectionListeners :=
                filter (\<lambda>kv. fst kv \<noteq> Some (Iframe fr)) (connectionListeners h)\<rparr>, w)
           = (case mainListener e t ev (h, w) of
                ((h', w'), r) \<Rightarrow>
                  ((h'\<lparr>connectionListeners :=
                        filter (\<lambda>kv. fst kv \<noteq> Some (Iframe fr)) (connectionListeners h')\<rparr>,
                    w'), r))
       \<and> ((\<forall>kv \<in> set (connectionListeners h). fst kv = Some (Iframe fr))
            \<and> (\<exists>d. data ev = Some d \<and> action d = HANDSHAKE_REQUEST) \<longrightarrow>
           fst (mainListener e t ev (h, w)) = (h, w)
           \<and> connections (fst (fst (mainListener e t ev (h, w)))) = connections h)"
proof -
  have sk: "skipped e ev (Some (Iframe fr))"
    using assms by (auto simp: isValidTarget_def Let_def)
  note loops = forGuests_keeps [OF sk, of t "map fst (connectionListeners h)" "(h, w)"]
  have keep: "listenersFor (Some (Iframe fr)) (fst (fst (mainListener e t ev (h, w))))
      = listenersFor (Some (Iframe fr)) h"
  proof (cases "data ev")
    case None
    then show ?thesis by (simp add: mainListener_def)
  next
    case (Some d)
    show ?thesis
    proof (cases "action d = HANDSHAKE_REQUEST")
      case True
      with Some loops show ?thesis by (simp add: mainListener_def)
    next
      case False
      with Some show ?thesis by (simp add: mainListener_def)
    qed
  qed
  have only: "fst (mainListener e t ev (h, w)) = (h, w)"
    if "\<forall>kv \<in> set (connectionListeners h). fst kv = Some (Iframe fr)"
      and "\<exists>d. data ev = Some d \<and> action d = HANDSHAKE_REQUEST"
  proof -
    from that(1) sk have "\<forall>g \<in> set (map fst (connectionListeners h)). skipped e ev g"
      by auto
    from forGuests_all_skipped [OF this, of t "(h, w)"] that(2)
    show ?thesis by (auto simp: mainListener_def)
  qed
  show ?thesis
    using keep mainListener_without [OF sk, of t h w] only by auto
qed

subsection \<open>The three properties on the example\<close>

theorem pending_count_non_negative_witness:
  "hosts (hostRun exampleEnv exampleOps emptyWorld) \<noteq> []
   \<and> 0 \<le> pendingConnections (snd (hd (hosts (hostRun exampleEnv exampleOps emptyWorld))))
   \<and> snd (runConnectionListener exampleEnv WindowTarget None exampleListener exampleHandshake
            (newHost, emptyWorld)) = Returned
   \<and> pendingConnections (fst (fst (runConnectionListener exampleEnv WindowTarget None
            exampleListener exampleHandshake (newHost, emptyWorld))))
       = max (pendingConnections (fst (newHost :: jsValue host, emptyWorld :: jsValue world)) - 1) 0"
proof -
  note t = pending_count_non_negative [where e = exampleEnv and ops = exampleOps
      and t = WindowTarget and g = None and l = exampleListener and ev = exampleHandshake
      and st = "(newHost, emptyWorld)"]
  have ne: "hosts (hostRun exampleEnv exampleOps emptyWorld) \<noteq> []"
    by code_simp
  then have "snd (hd (hosts (hostRun exampleEnv exampleOps emptyWorld)))
      \<in> snd ` set (hosts (hostRun exampleEnv exampleOps emptyWorld))"
    by simp
  with t have 1: "0 \<le> pendingConnections (snd (hd (hosts (hostRun exampleEnv exampleOps
      emptyWorld))))"
    by blast
  have r0: "snd (runConnectionListener exampleEnv WindowTarget None exampleListener
      exampleHandshake (newHost, emptyWorld)) = Returned"
    by code_simp
  obtain st' r where run: "runConnectionListener exampleEnv WindowTarget None exampleListener
      exampleHandshake (newHost, emptyWorld) = (st', r)"
    by (cases "runConnectionListener exampleEnv WindowTarget None exampleListener
          exampleHandshake (newHost, emptyWorld)")
  have r: "r = Returned"
    using run r0 by simp
  with t run have "pendingConnections (fst st')
      = max (pendingConnections (fst (newHost :: jsValue host, emptyWorld :: jsValue world)) - 1) 0"
    by blast
  with ne 1 run r show ?thesis by simp
qed

theorem iframe_guard_witness:
  "Some (origin exampleForeignEvent) \<noteq> getOriginFromURL exampleEnv (src exampleFrame)
   \<and> source exampleForeignEvent \<noteq> contentWindow exampleFrame
   \<and> connectionListeners exampleHost = [(Some (Iframe exampleFrame), [exampleListener])]
   \<and> data exampleForeignEvent \<noteq> None
   \<and> listenersFor (Some (Iframe exampleFrame))
        (fst (fst (mainListener exampleEnv WindowTarget exampleForeignEvent
                     (exampleHost, emptyWorld)))) = [exampleListener]
   \<and> fst (mainListener exampleEnv WindowTarget exampleForeignEvent (exampleHost, emptyWorld))
        = (exampleHost, emptyWorld)
   \<and> connections (fst (fst (mainListener exampleEnv WindowTarget exampleForeignEvent
                     (exampleHost, emptyWorld)))) = []"
proof -
  have hyp: "Some (origin exampleForeignEvent) \<noteq> getOriginFromURL exampleEnv (src exampleFrame)
      \<or> source exampleForeignEvent \<noteq> contentWindow exampleFrame"
    by (simp add: exampleForeignEvent_def exampleEnv_def exampleFrame_def)
  have h: "connectionListeners exampleHost = [(Some (Iframe exampleFrame), [exampleListener])]"
    "connections exampleHost = []"
    "listenersFor (Some (Iframe exampleFrame)) exampleHost = [exampleListener]"
    by (simp_all add: exampleHost_def hostConnect_def newHost_def exampleListener_def Let_def
        listenersFor_def)
  have d: "\<exists>d. data exampleForeignEvent = Some d \<and> action d = HANDSHAKE_REQUEST"
    by (simp add: exampleForeignEvent_def)
  have all: "\<forall>kv \<in> set (connectionListeners exampleHost). fst kv = Some (Iframe exampleFrame)"
    by (simp add: h)
  have both: "Some (origin exampleForeignEvent) \<noteq> getOriginFromURL exampleEnv (src exampleFrame)"
    "source exampleForeignEvent \<noteq> contentWindow exampleFrame"
    by (simp_all add: exampleForeignEvent_def exampleEnv_def exampleFrame_def)
  from iframe_guard [OF hyp, where t = WindowTarget and h = exampleHost and w = emptyWorld]
    all d h both
  show ?thesis by auto
qed



section \<open>Properties of guest.ts\<close>

lemma guestConnect_fields:
  assumes "jsonClone e (shape s) = Inr sch"
  shows "connected (guestConnect e s tg c) = False" "interval (guestConnect e s tg c)"
    "timeout (guestConnect e s tg c)" "subscribed (guestConnect e s tg c)"
    "promise (guestConnect e s tg c) = Waiting" "clock (guestConnect e s tg c) = 0"
    "target (guestConnect e s tg c) = tg"
  using assms by (simp_all add: guestConnect_def Let_def)

text \<open>What a step reads and writes.\<close>

lemma intervalCallback_fields:
  "connected (intervalCallback g) = connected g"
  "interval (intervalCallback g) = (interval g \<and> \<not> connected g)"
  "timeout (intervalCallback g) = timeout g"
  "subscribed (intervalCallback g) = subscribed g"
  "promise (intervalCallback g) = promise g"
  "clock (intervalCallback g) = clock g"
  "target (intervalCallback g) = target g"
  by (simp_all add: intervalCallback_def)

lemma timeoutCallback_fields:
  "connected (timeoutCallback g) = connected g"
  "interval (timeoutCallback g) = interval g"
  "timeout (timeoutCallback g) = timeout g"
  "subscribed (timeoutCallback g) = subscribed g"
  "clock (timeoutCallback g) = clock g"
  "target (timeoutCallback g) = target g"
  by (simp_all add: timeoutCallback_def)

lemma tick_fields:
  "connected (tick g) = connected g"
  "subscribed (tick g) = subscribed g"
  "clock (tick g) = Suc (clock g)"
  "target (tick g) = target g"
  "interval (tick g)
     = (interval g \<and> \<not> (connected g \<and> Suc (clock g) mod REQUEST_INTERVAL = 0))"
  "timeout (tick g) = (timeout g \<and> Suc (clock g) \<noteq> TIMEOUT_INTERVAL)"
  by (auto simp: tick_def Let_def intervalCallback_fields timeoutCallback_fields)

lemma tick_promise:
  "promise (tick g)
     = (if timeout g \<and> Suc (clock g) = TIMEOUT_INTERVAL \<and> \<not> connected g
           \<and> promise g = Waiting
        then RejectedString ''connection timeout'' else promise g)"
  by (auto simp: tick_def Let_def intervalCallback_fields timeoutCallback_def)

lemma elapse_fields:
  "connected (elapse n g) = connected g"
  "subscribed (elapse n g) = subscribed g"
  "clock (elapse n g) = clock g + n"
  "target (elapse n g) = target g"
  by (induction n arbitrary: g) (simp_all add: tick_fields)

lemma handleHandshakeResponse_fields:
  "subscribed (fst (handleHandshakeResponse e ev g)) = subscribed g"
  "interval (fst (handleHandshakeResponse e ev g)) = interval g"
  "timeout (fst (handleHandshakeResponse e ev g)) = timeout g"
  "clock (fst (handleHandshakeResponse e ev g)) = clock g"
  "target (fst (handleHandshakeResponse e ev g)) = target g"
  by (simp_all add: handleHandshakeResponse_def Let_def split: option.splits)

lemma handleHandshakeResponse_ignored:
  assumes "\<forall>d. data ev = Some d \<and> action d = HANDSHAKE_REPLY \<longrightarrow> source ev \<noteq> Some (target g)"
  shows "fst (handleHandshakeResponse e ev g) = g"
  using assms by (auto simp: handleHandshakeResponse_def split: option.splits)

lemma handleHandshakeResponse_connected:
  "connected g \<Longrightarrow> connected (fst (handleHandshakeResponse e ev g))"
  by (simp add: handleHandshakeResponse_def Let_def split: option.splits)

lemma handleHandshakeResponse_settled:
  "promise g \<noteq> Waiting \<Longrightarrow> promise (fst (handleHandshakeResponse e ev g)) = promise g"
  by (simp add: handleHandshakeResponse_def Let_def split: option.splits)

lemma guestReceive_fields:
  "subscribed (guestReceive e ev g) = subscribed g"
  "interval (guestReceive e ev g) = interval g"
  "timeout (guestReceive e ev g) = timeout g"
  "clock (guestReceive e ev g) = clock g"
  "target (guestReceive e ev g) = target g"
  by (simp_all add: guestReceive_def Let_def handleHandshakeResponse_fields)

lemma guestReceive_connected: "connected g \<Longrightarrow> connected (guestReceive e ev g)"
  by (simp add: guestReceive_def Let_def handleHandshakeResponse_connected)

lemma guestReceive_settled:
  "promise g \<noteq> Waiting \<Longrightarrow> promise (guestReceive e ev g) = promise g"
  by (simp add: guestReceive_def Let_def handleHandshakeResponse_settled)

lemma guestReceive_ignored:
  assumes "\<forall>d. data ev = Some d \<and> action d = HANDSHAKE_REPLY \<longrightarrow> source ev \<noteq> Some (target g)"
  shows "connected (guestReceive e ev g) = connected g"
    "promise (guestReceive e ev g) = promise g"
  using handleHandshakeResponse_ignored [OF assms]
  by (simp_all add: guestReceive_def Let_def)

lemma guestClose_fields:
  "interval (guestClose cn g) = interval g"
  "timeout (guestClose cn g) = timeout g"
  "connected (guestClose cn g) = connected g"
  "promise (guestClose cn g) = promise g"
  "clock (guestClose cn g) = clock g"
  "target (guestClose cn g) = target g"
  by (simp_all add: guestClose_def)

lemma guestStep_target: "target (guestStep e ev g) = target g"
  by (cases ev)
    (simp_all add: guestReceive_fields elapse_fields guestClose_fields
      split: connectPromise.splits option.splits)

lemma guestStep_clock:
  "clock (guestStep e ev g) = clock g + duration [ev]"
  by (cases ev)
    (simp_all add: guestReceive_fields elapse_fields guestClose_fields
      split: connectPromise.splits option.splits)


text \<open>
  A connector that has accepted no reply: not connected, timer and listener in place, and
  the promise pending before the timeout and rejected from then on. Time and messages
  other than a reply from the target keep it so.
\<close>

lemma tick_idle:
  assumes "\<not> connected g \<and> interval g \<and> subscribed g
     \<and> timeout g = (clock g < TIMEOUT_INTERVAL)
     \<and> (clock g < TIMEOUT_INTERVAL \<longrightarrow> promise g = Waiting)
     \<and> (TIMEOUT_INTERVAL \<le> clock g \<longrightarrow> promise g = RejectedString ''connection timeout'')"
  shows "\<not> connected (tick g) \<and> interval (tick g) \<and> subscribed (tick g)
     \<and> timeout (tick g) = (clock (tick g) < TIMEOUT_INTERVAL)
     \<and> (clock (tick g) < TIMEOUT_INTERVAL \<longrightarrow> promise (tick g) = Waiting)
     \<and> (TIMEOUT_INTERVAL \<le> clock (tick g) \<longrightarrow> promise (tick g) = RejectedString ''connection timeout'')"
  using assms
  by (auto simp: tick_fields tick_promise)

lemma elapse_idle:
  assumes "\<not> connected g \<and> interval g \<and> subscribed g
     \<and> timeout g = (clock g < TIMEOUT_INTERVAL)
     \<and> (clock g < TIMEOUT_INTERVAL \<longrightarrow> promise g = Waiting)
     \<and> (TIMEOUT_INTERVAL \<le> clock g \<longrightarrow> promise g = RejectedString ''connection timeout'')"
  shows "\<not> connected (elapse n g) \<and> interval (elapse n g) \<and> subscribed (elapse n g)
     \<and> timeout (elapse n g) = (clock (elapse n g) < TIMEOUT_INTERVAL)
     \<and> (clock (elapse n g) < TIMEOUT_INTERVAL \<longrightarrow> promise (elapse n g) = Waiting)
     \<and> (TIMEOUT_INTERVAL \<le> clock (elapse n g) \<longrightarrow> promise (elapse n g) = RejectedString ''connection timeout'')"
  using assms
proof (induction n arbitrary: g)
  case 0
  then show ?case by simp
next
  case (Suc n)
  from tick_idle [OF Suc.prems] have "\<not> connected (tick g) \<and> interval (tick g) \<and> subscribed (tick g)
     \<and> timeout (tick g) = (clock (tick g) < TIMEOUT_INTERVAL)
     \<and> (clock (tick g) < TIMEOUT_INTERVAL \<longrightarrow> promise (tick g) = Waiting)
     \<and> (TIMEOUT_INTERVAL \<le> clock (tick g) \<longrightarrow> promise (tick g) = RejectedString ''connection timeout'')" .
  from Suc.IH [OF this] show ?case by simp
qed

lemma guestStep_idle:
  assumes "\<not> connected g \<and> interval g \<and> subscribed g
     \<and> timeout g = (clock g < TIMEOUT_INTERVAL)
     \<and> (clock g < TIMEOUT_INTERVAL \<longrightarrow> promise g = Waiting)
     \<and> (TIMEOUT_INTERVAL \<le> clock g \<longrightarrow> promise g = RejectedString ''connection timeout'')"
    and "\<forall>m d. ev = Message m \<and> data m = Some d \<and> action d = HANDSHAKE_REPLY
           \<longrightarrow> source m \<noteq> Some (target g)"
  shows "\<not> connected (guestStep e ev g) \<and> interval (guestStep e ev g) \<and> subscribed (guestStep e ev g)
     \<and> timeout (guestStep e ev g) = (clock (guestStep e ev g) < TIMEOUT_INTERVAL)
     \<and> (clock (guestStep e ev g) < TIMEOUT_INTERVAL \<longrightarrow> promise (guestStep e ev g) = Waiting)
     \<and> (TIMEOUT_INTERVAL \<le> clock (guestStep e ev g) \<longrightarrow> promise (guestStep e ev g) = RejectedString ''connection timeout'')"
proof (cases ev)
  case (Message m)
  with assms(2) have "\<forall>d. data m = Some d \<and> action d = HANDSHAKE_REPLY
      \<longrightarrow> source m \<noteq> Some (target g)"
    by simp
  from guestReceive_ignored [OF this, of e] assms(1) Message show ?thesis
    by (simp add: guestReceive_fields)
next
  case (Elapse n)
  with elapse_idle [OF assms(1), of n] show ?thesis by simp
next
  case Close
  from assms(1) have "promise g = Waiting \<or> promise g = RejectedString ''connection timeout''"
    by (cases "clock g < TIMEOUT_INTERVAL") auto
  with Close assms(1) show ?thesis by auto
next
  case (Call name a)
  from assms(1) have "promise g = Waiting \<or> promise g = RejectedString ''connection timeout''"
    by (cases "clock g < TIMEOUT_INTERVAL") auto
  with Call assms(1) show ?thesis by auto
qed

lemma guestRun_target: "target (guestRun e evs g) = target g"
  unfolding guestRun_def
  by (induction evs arbitrary: g) (simp_all add: guestStep_target)

lemma guestRun_clock: "clock (guestRun e evs g) = clock g + duration evs"
  unfolding guestRun_def
proof (induction evs arbitrary: g)
  case Nil
  then show ?case by simp
next
  case (Cons ev evs)
  have "duration (ev # evs) = duration [ev] + duration evs"
    by (cases ev) simp_all
  then show ?case
    using Cons.IH [of "guestStep e ev g"] by (simp add: guestStep_clock)
qed

lemma guestRun_idle:
  assumes "\<not> connected g \<and> interval g \<and> subscribed g
     \<and> timeout g = (clock g < TIMEOUT_INTERVAL)
     \<and> (clock g < TIMEOUT_INTERVAL \<longrightarrow> promise g = Waiting)
     \<and> (TIMEOUT_INTERVAL \<le> clock g \<longrightarrow> promise g = RejectedString ''connection timeout'')"
    and "\<forall>x \<in> set evs. \<forall>m d. x = Message m \<and> data m = Some d \<and> action d = HANDSHAKE_REPLY
       \<longrightarrow> source m \<noteq> Some (target g)"
  shows "\<not> connected (guestRun e evs g) \<and> interval (guestRun e evs g) \<and> subscribed (guestRun e evs g)
     \<and> timeout (guestRun e evs g) = (clock (guestRun e evs g) < TIMEOUT_INTERVAL)
     \<and> (clock (guestRun e evs g) < TIMEOUT_INTERVAL \<longrightarrow> promise (guestRun e evs g) = Waiting)
     \<and> (TIMEOUT_INTERVAL \<le> clock (guestRun e evs g) \<longrightarrow> promise (guestRun e evs g) = RejectedString ''connection timeout'')"
  using assms unfolding guestRun_def
proof (induction evs arbitrary: g)
  case Nil
  then show ?case by simp
next
  case (Cons ev evs)
  from Cons.prems(2) have here: "\<forall>m d. ev = Message m \<and> data m = Some d
      \<and> action d = HANDSHAKE_REPLY \<longrightarrow> source m \<noteq> Some (target g)"
    by simp
  from guestStep_idle [OF Cons.prems(1) here, of e]
  have idle: "\<not> connected (guestStep e ev g) \<and> interval (guestStep e ev g) \<and> subscribed (guestStep e ev g)
     \<and> timeout (guestStep e ev g) = (clock (guestStep e ev g) < TIMEOUT_INTERVAL)
     \<and> (clock (guestStep e ev g) < TIMEOUT_INTERVAL \<longrightarrow> promise (guestStep e ev g) = Waiting)
     \<and> (TIMEOUT_INTERVAL \<le> clock (guestStep e ev g) \<longrightarrow> promise (guestStep e ev g) = RejectedString ''connection timeout'')" .
  from Cons.prems(2) have rest: "\<forall>x \<in> set evs. \<forall>m d. x = Message m \<and> data m = Some d \<and> action d = HANDSHAKE_REPLY
       \<longrightarrow> source m \<noteq> Some (target (guestStep e ev g))"
    by (simp add: guestStep_target)
  from Cons.IH [OF idle rest] show ?case by simp
qed

text \<open>A promise that is rejected stays rejected.\<close>

lemma elapse_rejected:
  "promise g = RejectedString x \<Longrightarrow> promise (elapse n g) = RejectedString x"
  by (induction n arbitrary: g) (simp_all add: tick_promise)

lemma guestStep_rejected:
  "promise g = RejectedString x \<Longrightarrow> promise (guestStep e ev g) = RejectedString x"
  by (cases ev) (simp_all add: guestReceive_settled elapse_rejected)

lemma guestRun_rejected:
  "promise g = RejectedString x \<Longrightarrow> promise (guestRun e evs g) = RejectedString x"
  unfolding guestRun_def
  by (induction evs arbitrary: g) (simp_all add: guestStep_rejected)

lemma guestRun_append: "guestRun e (evs @ evs') g = guestRun e evs' (guestRun e evs g)"
  by (simp add: guestRun_def)

text \<open>
  A schema that \<^verbatim>\<open>JSON.stringify\<close> refuses: the body of the promise throws before a timer
  is set, and the promise is rejected with what was thrown, for good.
\<close>

lemma guestConnect_refused:
  assumes "jsonClone e (shape s) = Inl x"
  shows "promise (guestConnect e s tg c) = RejectedThrown x"
    "\<not> interval (guestConnect e s tg c)" "\<not> timeout (guestConnect e s tg c)"
    "subscribed (guestConnect e s tg c)"
  using assms by (simp_all add: guestConnect_def Let_def)

lemma elapse_thrown:
  "promise g = RejectedThrown x \<Longrightarrow> promise (elapse n g) = RejectedThrown x"
  by (induction n arbitrary: g) (simp_all add: tick_promise)

lemma guestStep_thrown:
  "promise g = RejectedThrown x \<Longrightarrow> promise (guestStep e ev g) = RejectedThrown x"
  by (cases ev) (simp_all add: guestReceive_settled elapse_thrown)

lemma guestRun_thrown:
  "promise g = RejectedThrown x \<Longrightarrow> promise (guestRun e evs g) = RejectedThrown x"
  unfolding guestRun_def
  by (induction evs arbitrary: g) (simp_all add: guestStep_thrown)

text \<open>
  C4, as the code has it. A call of the guest's \<open>connect\<close>, followed by any messages,
  waiting, and attempts to close or to call, among which no message has the action
  \<open>HANDSHAKE_REPLY\<close> and the target as its source. With a schema that survives its JSON
  round trip: as long as less than 3000 milliseconds have passed the promise is pending,
  and once 3000 milliseconds have passed it is rejected with \<^verbatim>\<open>connection timeout\<close>, and
  stays so whatever comes later, a reply from the target included. With a schema whose JSON
  round trip throws \<open>x\<close>: no timer is set, and the promise is rejected with \<open>x\<close> from the
  start and stays so, whatever time passes.
\<close>

theorem guest_handshake_timeout:
  assumes "\<forall>x \<in> set evs. \<forall>m d. x = Message m \<and> data m = Some d \<and> action d = HANDSHAKE_REPLY
       \<longrightarrow> source m \<noteq> Some tg"
  shows "(\<forall>sch. jsonClone e (shape s) = Inr sch \<longrightarrow>
            (duration evs < 3000 \<longrightarrow> promise (guestRun e evs (guestConnect e s tg c)) = Waiting)
          \<and> (3000 \<le> duration evs \<longrightarrow>
               promise (guestRun e evs (guestConnect e s tg c))
                 = RejectedString ''connection timeout''
             \<and> (\<forall>evs'. promise (guestRun e (evs @ evs') (guestConnect e s tg c))
                         = RejectedString ''connection timeout'')))
       \<and> (\<forall>x. jsonClone e (shape s) = Inl x \<longrightarrow>
            \<not> timeout (guestConnect e s tg c)
          \<and> promise (guestRun e evs (guestConnect e s tg c)) = RejectedThrown x
          \<and> (\<forall>evs'. promise (guestRun e (evs @ evs') (guestConnect e s tg c))
                      = RejectedThrown x))"
proof -
  let ?g = "guestConnect e s tg c"
  have first: "(duration evs < 3000 \<longrightarrow> promise (guestRun e evs ?g) = Waiting)
      \<and> (3000 \<le> duration evs \<longrightarrow>
           promise (guestRun e evs ?g) = RejectedString ''connection timeout''
         \<and> (\<forall>evs'. promise (guestRun e (evs @ evs') ?g)
                     = RejectedString ''connection timeout''))"
    if sch: "jsonClone e (shape s) = Inr sch" for sch
  proof -
    have start: "\<not> connected ?g \<and> interval ?g \<and> subscribed ?g
       \<and> timeout ?g = (clock ?g < TIMEOUT_INTERVAL)
       \<and> (clock ?g < TIMEOUT_INTERVAL \<longrightarrow> promise ?g = Waiting)
       \<and> (TIMEOUT_INTERVAL \<le> clock ?g \<longrightarrow> promise ?g = RejectedString ''connection timeout'')"
      by (simp add: guestConnect_fields [OF sch] TIMEOUT_INTERVAL_def)
    have nm: "\<forall>x \<in> set evs. \<forall>m d. x = Message m \<and> data m = Some d \<and> action d = HANDSHAKE_REPLY
         \<longrightarrow> source m \<noteq> Some (target ?g)"
      using assms by (simp add: guestConnect_fields [OF sch])
    from guestRun_idle [OF start nm, of e]
    have idle: "\<not> connected (guestRun e evs ?g) \<and> interval (guestRun e evs ?g) \<and> subscribed (guestRun e evs ?g)
       \<and> timeout (guestRun e evs ?g) = (clock (guestRun e evs ?g) < TIMEOUT_INTERVAL)
       \<and> (clock (guestRun e evs ?g) < TIMEOUT_INTERVAL \<longrightarrow> promise (guestRun e evs ?g) = Waiting)
       \<and> (TIMEOUT_INTERVAL \<le> clock (guestRun e evs ?g) \<longrightarrow> promise (guestRun e evs ?g) = RejectedString ''connection timeout'')" .
    have clock: "clock (guestRun e evs ?g) = duration evs"
      by (simp add: guestRun_clock guestConnect_fields [OF sch])
    from idle clock show ?thesis
      by (auto simp: TIMEOUT_INTERVAL_def guestRun_append guestRun_rejected)
  qed
  have second: "\<not> timeout ?g
      \<and> promise (guestRun e evs ?g) = RejectedThrown x
      \<and> (\<forall>evs'. promise (guestRun e (evs @ evs') ?g) = RejectedThrown x)"
    if x: "jsonClone e (shape s) = Inl x" for x
    using guestConnect_refused [OF x, of tg c]
    by (simp add: guestRun_thrown)
  from first second show ?thesis by blast
qed

text \<open>The listener goes with \<open>close\<close> only; the timer goes once connected only.\<close>

lemma guestStep_subscribed:
  "ev \<noteq> Close \<Longrightarrow> subscribed (guestStep e ev g) = subscribed g"
  by (cases ev)
    (simp_all add: guestReceive_fields elapse_fields split: connectPromise.splits option.splits)

lemma guestRun_subscribed:
  "\<forall>x \<in> set evs. x \<noteq> Close \<Longrightarrow> subscribed (guestRun e evs g) = subscribed g"
  unfolding guestRun_def
  by (induction evs arbitrary: g) (simp_all add: guestStep_subscribed)

lemma elapse_timer:
  "interval g \<or> connected g \<Longrightarrow> interval (elapse n g) \<or> connected (elapse n g)"
proof (induction n arbitrary: g)
  case 0
  then show ?case by simp
next
  case (Suc n)
  from Suc.prems have "interval (tick g) \<or> connected (tick g)"
    by (auto simp: tick_fields)
  from Suc.IH [OF this] show ?case by simp
qed

lemma guestStep_timer:
  assumes "interval g \<or> connected g"
  shows "interval (guestStep e ev g) \<or> connected (guestStep e ev g)"
proof (cases ev)
  case (Message m)
  with assms guestReceive_connected [of g e m] show ?thesis
    by (auto simp: guestReceive_fields)
next
  case (Elapse n)
  with elapse_timer [OF assms, of n] show ?thesis by simp
next
  case Close
  with assms show ?thesis
    by (auto simp: guestClose_fields split: connectPromise.splits)
next
  case (Call name a)
  with assms show ?thesis
    by (auto split: connectPromise.splits option.splits)
qed

lemma guestRun_timer:
  "interval g \<or> connected g \<Longrightarrow>
   interval (guestRun e evs g) \<or> connected (guestRun e evs g)"
  unfolding guestRun_def
proof (induction evs arbitrary: g)
  case Nil
  then show ?case by simp
next
  case (Cons ev evs)
  from guestStep_timer [OF Cons.prems, of e ev]
  have "interval (guestStep e ev g) \<or> connected (guestStep e ev g)" .
  from Cons.IH [OF this] show ?case by simp
qed

text \<open>
  C5, as the code has it. After a call of \<open>connect\<close> (with a schema that survives its
  JSON round trip) and any events:
  while the caller has not closed the connection, \<open>handleHandshakeResponse\<close> is
  subscribed; the interval timer is set unless a reply has been accepted (only its own
  callback clears it, once \<open>connected\<close> holds), and \<open>close\<close> leaves it as it is; and
  when no reply from the target has arrived, for however long, the timer is set and the
  listener subscribed: a \<open>connect\<close> that times out releases neither.
\<close>

theorem guest_resource_release:
  assumes "jsonClone e (shape s) = Inr sch"
  shows "((\<forall>x \<in> set evs. x \<noteq> Close) \<longrightarrow>
            subscribed (guestRun e evs (guestConnect e s tg c)))
       \<and> (interval (guestRun e evs (guestConnect e s tg c))
            \<or> connected (guestRun e evs (guestConnect e s tg c)))
       \<and> interval (guestClose cn g) = interval g
       \<and> ((\<forall>x \<in> set evs. \<forall>m d. x = Message m \<and> data m = Some d
               \<and> action d = HANDSHAKE_REPLY \<longrightarrow> source m \<noteq> Some tg) \<longrightarrow>
            interval (guestRun e evs (guestConnect e s tg c))
            \<and> subscribed (guestRun e evs (guestConnect e s tg c))
            \<and> \<not> connected (guestRun e evs (guestConnect e s tg c)))"
proof -
  let ?g = "guestConnect e s tg c"
  have start: "\<not> connected ?g \<and> interval ?g \<and> subscribed ?g
     \<and> timeout ?g = (clock ?g < TIMEOUT_INTERVAL)
     \<and> (clock ?g < TIMEOUT_INTERVAL \<longrightarrow> promise ?g = Waiting)
     \<and> (TIMEOUT_INTERVAL \<le> clock ?g \<longrightarrow> promise ?g = RejectedString ''connection timeout'')"
    by (simp add: guestConnect_fields [OF assms(1)] TIMEOUT_INTERVAL_def)
  have 1: "subscribed (guestRun e evs ?g)" if "\<forall>x \<in> set evs. x \<noteq> Close"
    using guestRun_subscribed [OF that, of e ?g]
    by (simp add: guestConnect_fields [OF assms(1)])
  have 2: "interval (guestRun e evs ?g) \<or> connected (guestRun e evs ?g)"
    by (rule guestRun_timer) (simp add: guestConnect_fields [OF assms(1)])
  have 3: "interval (guestRun e evs ?g) \<and> subscribed (guestRun e evs ?g)
      \<and> \<not> connected (guestRun e evs ?g)"
    if "\<forall>x \<in> set evs. \<forall>m d. x = Message m \<and> data m = Some d \<and> action d = HANDSHAKE_REPLY
       \<longrightarrow> source m \<noteq> Some tg"
  proof -
    from that have nm: "\<forall>x \<in> set evs. \<forall>m d. x = Message m \<and> data m = Some d \<and> action d = HANDSHAKE_REPLY
       \<longrightarrow> source m \<noteq> Some (target ?g)"
      by (simp add: guestConnect_fields [OF assms(1)])
    from guestRun_idle [OF start nm, of e] show ?thesis by simp
  qed
  from 1 2 3 show ?thesis by (simp add: guestClose_fields)
qed

lemma elapse_cleared: "\<not> interval g \<Longrightarrow> \<not> interval (elapse n g)"
  by (induction n arbitrary: g) (simp_all add: tick_fields)

lemma elapse_clears:
  "connected g \<Longrightarrow> clock g < REQUEST_INTERVAL \<Longrightarrow> REQUEST_INTERVAL \<le> clock g + n \<Longrightarrow>
   \<not> interval (elapse n g)"
proof (induction n arbitrary: g)
  case 0
  then show ?case by simp
next
  case (Suc n)
  show ?case
  proof (cases "Suc (clock g) = REQUEST_INTERVAL")
    case True
    with Suc.prems(1) have "\<not> interval (tick g)"
      by (simp add: tick_fields)
    then show ?thesis using elapse_cleared by simp
  next
    case False
    with Suc.prems have "connected (tick g)" "clock (tick g) < REQUEST_INTERVAL"
      "REQUEST_INTERVAL \<le> clock (tick g) + n"
      by (simp_all add: tick_fields)
    from Suc.IH [OF this] show ?thesis by simp
  qed
qed

text \<open>
  C5 as stated fails: after a reply from the target and 600 milliseconds, with no
  \<open>close\<close>, the interval timer is cleared (and the listener still subscribed); and
  after a reply and a \<open>close\<close>, the listener is gone and the timer is still set.
\<close>

theorem guest_resource_release_counterexample:
  "\<not> interval (guestRun exampleEnv [Message exampleReplyEvent, Elapse 600] exampleConnector)
   \<and> subscribed (guestRun exampleEnv [Message exampleReplyEvent, Elapse 600] exampleConnector)
   \<and> interval (guestRun exampleEnv [Message exampleReplyEvent, Close] exampleConnector)
   \<and> \<not> subscribed (guestRun exampleEnv [Message exampleReplyEvent, Close] exampleConnector)"
proof -
  let ?g1 = "guestReceive exampleEnv exampleReplyEvent exampleConnector"
  have g1: "connected ?g1" "clock ?g1 = 0" "subscribed ?g1"
    by code_simp+
  have "\<not> interval (elapse 600 ?g1)"
    by (rule elapse_clears) (simp_all add: g1 REQUEST_INTERVAL_def)
  moreover have "subscribed (elapse 600 ?g1)"
    by (simp add: elapse_fields g1)
  moreover have "interval (guestRun exampleEnv [Message exampleReplyEvent, Close] exampleConnector)"
    by code_simp
  moreover have "\<not> subscribed (guestRun exampleEnv [Message exampleReplyEvent, Close]
      exampleConnector)"
    by code_simp
  ultimately show ?thesis by (simp add: guestRun_def)
qed

theorem guest_resource_release_witness:
  "jsonClone exampleEnv (shape exampleSchema) = Inr (JObj [])
   \<and> Message exampleForeignEvent \<noteq> Close \<and> Elapse 3000 \<noteq> (Close :: jsValue guestEvent)
   \<and> source exampleForeignEvent \<noteq> Some (WindowRef 7)
   \<and> subscribed (guestRun exampleEnv [Message exampleForeignEvent, Elapse 3000] exampleConnector)
   \<and> interval (guestRun exampleEnv [Message exampleForeignEvent, Elapse 3000] exampleConnector)
   \<and> \<not> connected (guestRun exampleEnv [Message exampleForeignEvent, Elapse 3000]
          exampleConnector)"
proof -
  have sch: "jsonClone exampleEnv (shape exampleSchema) = Inr (JObj [])"
    by (simp add: exampleEnv_def exampleSchema_def exampleClone_def)
  have src: "source exampleForeignEvent \<noteq> Some (WindowRef 7)"
    by (simp add: exampleForeignEvent_def)
  then have nm: "\<forall>x \<in> set [Message exampleForeignEvent, Elapse 3000]. \<forall>m d.
      x = Message m \<and> data m = Some d \<and> action d = HANDSHAKE_REPLY
        \<longrightarrow> source m \<noteq> Some (WindowRef 7)"
    by simp
  from guest_resource_release [OF sch, where evs = "[Message exampleForeignEvent, Elapse 3000]"
      and tg = "WindowRef 7" and c = emptyCtx and g = exampleConnector
      and cn = "\<lparr>guestRemote = exampleRemote, guestCloseLocal = []\<rparr>"] nm
  show ?thesis
    using sch src by (simp add: exampleConnector_def)
qed

theorem guest_handshake_timeout_witness:
  "source exampleForeignEvent \<noteq> Some (WindowRef 7)
   \<and> jsonClone exampleEnv (shape exampleSchema) = Inr (JObj [])
   \<and> duration [Message exampleForeignEvent, Elapse 2999 :: jsValue guestEvent] < 3000
   \<and> promise (guestRun exampleEnv [Message exampleForeignEvent, Elapse 2999] exampleConnector)
       = Waiting
   \<and> 3000 \<le> duration [Message exampleForeignEvent, Elapse 3000 :: jsValue guestEvent]
   \<and> promise (guestRun exampleEnv [Message exampleForeignEvent, Elapse 3000] exampleConnector)
       = RejectedString ''connection timeout''
   \<and> promise (guestRun exampleEnv
        ([Message exampleForeignEvent, Elapse 3000] @ [Message exampleReplyEvent])
        exampleConnector) = RejectedString ''connection timeout''
   \<and> jsonClone exampleEnv (shape exampleBigSchema) = Inl (JStr ''TypeError'')
   \<and> promise (guestRun exampleEnv [Message exampleForeignEvent, Elapse 3000]
        (guestConnect exampleEnv exampleBigSchema (WindowRef 7) emptyCtx))
       = RejectedThrown (JStr ''TypeError'')"
proof -
  have sch: "jsonClone exampleEnv (shape exampleSchema) = Inr (JObj [])"
    by (simp add: exampleEnv_def exampleSchema_def exampleClone_def)
  have big: "jsonClone exampleEnv (shape exampleBigSchema) = Inl (JStr ''TypeError'')"
    by (simp add: exampleEnv_def exampleBigSchema_def exampleClone_def)
  have src: "source exampleForeignEvent \<noteq> Some (WindowRef 7)"
    by (simp add: exampleForeignEvent_def)
  then have nm: "\<forall>x \<in> set [Message exampleForeignEvent, Elapse n]. \<forall>m d.
      x = Message m \<and> data m = Some d \<and> action d = HANDSHAKE_REPLY
        \<longrightarrow> source m \<noteq> Some (WindowRef 7)" for n
    by simp
  have d: "duration [Message exampleForeignEvent, Elapse 2999 :: jsValue guestEvent] < 3000"
    "3000 \<le> duration [Message exampleForeignEvent, Elapse 3000 :: jsValue guestEvent]"
    by simp_all
  note a = guest_handshake_timeout [OF nm, where n1 = 2999 and c = emptyCtx
      and e = exampleEnv and s = exampleSchema, THEN conjunct1, rule_format, OF sch]
  note b = guest_handshake_timeout [OF nm, where n1 = 3000 and c = emptyCtx
      and e = exampleEnv and s = exampleSchema, THEN conjunct1, rule_format, OF sch]
  note c = guest_handshake_timeout [OF nm, where n1 = 3000 and c = emptyCtx
      and e = exampleEnv and s = exampleBigSchema, THEN conjunct2, rule_format, OF big]
  from a d have 1: "promise (guestRun exampleEnv [Message exampleForeignEvent, Elapse 2999]
      exampleConnector) = Waiting"
    unfolding exampleConnector_def by blast
  from b d have 2: "promise (guestRun exampleEnv [Message exampleForeignEvent, Elapse 3000]
      exampleConnector) = RejectedString ''connection timeout''"
    "promise (guestRun exampleEnv
        ([Message exampleForeignEvent, Elapse 3000] @ [Message exampleReplyEvent])
        exampleConnector) = RejectedString ''connection timeout''"
    unfolding exampleConnector_def by blast+
  from c have 3: "promise (guestRun exampleEnv [Message exampleForeignEvent, Elapse 3000]
        (guestConnect exampleEnv exampleBigSchema (WindowRef 7) emptyCtx))
       = RejectedThrown (JStr ''TypeError'')"
    by blast
  show ?thesis
    using src sch d 1 2 big 3 by (simp only: simp_thms)
qed

text \<open>
  C4 as stated fails: the schema below holds a BigInt, \<^verbatim>\<open>JSON.stringify\<close> throws in
  the body of the promise before \<^verbatim>\<open>setTimeout\<close> is reached, and the promise is rejected
  with that TypeError. No reply from the target arrives in 3000 milliseconds, and the
  promise is not rejected with \<^verbatim>\<open>connection timeout\<close>.
\<close>

theorem guest_handshake_timeout_counterexample:
  "jsonClone exampleEnv (shape exampleBigSchema) = Inl (JStr ''TypeError'')
   \<and> source exampleForeignEvent = Some (WindowRef 2)
   \<and> duration [Message exampleForeignEvent, Elapse 3000 :: jsValue guestEvent] = 3000
   \<and> promise (guestConnect exampleEnv exampleBigSchema (WindowRef 7) emptyCtx)
       = RejectedThrown (JStr ''TypeError'')
   \<and> timeout (guestConnect exampleEnv exampleBigSchema (WindowRef 7) emptyCtx) = False
   \<and> interval (guestConnect exampleEnv exampleBigSchema (WindowRef 7) emptyCtx) = False
   \<and> promise (guestRun exampleEnv [Message exampleForeignEvent, Elapse 3000]
        (guestConnect exampleEnv exampleBigSchema (WindowRef 7) emptyCtx))
       = RejectedThrown (JStr ''TypeError'')"
proof -
  have big: "jsonClone exampleEnv (shape exampleBigSchema) = Inl (JStr ''TypeError'')"
    by (simp add: exampleEnv_def exampleBigSchema_def exampleClone_def)
  have src: "source exampleForeignEvent = Some (WindowRef 2)"
    by (simp add: exampleForeignEvent_def)
  have d: "duration [Message exampleForeignEvent, Elapse 3000 :: jsValue guestEvent] = 3000"
    by simp
  have start: "promise (guestConnect exampleEnv exampleBigSchema (WindowRef 7) emptyCtx)
      = RejectedThrown (JStr ''TypeError'')"
    "timeout (guestConnect exampleEnv exampleBigSchema (WindowRef 7) emptyCtx) = False"
    "interval (guestConnect exampleEnv exampleBigSchema (WindowRef 7) emptyCtx) = False"
    using big by (simp_all add: guestConnect_def Let_def)
  have step1: "promise (guestReceive exampleEnv exampleForeignEvent
        (guestConnect exampleEnv exampleBigSchema (WindowRef 7) emptyCtx))
      = RejectedThrown (JStr ''TypeError'')"
    using start(1) by (simp add: guestReceive_settled)
  have "promise (elapse 3000 (guestReceive exampleEnv exampleForeignEvent
        (guestConnect exampleEnv exampleBigSchema (WindowRef 7) emptyCtx)))
      = RejectedThrown (JStr ''TypeError'')"
    by (rule elapse_thrown) (rule step1)
  then have run: "promise (guestRun exampleEnv [Message exampleForeignEvent, Elapse 3000]
        (guestConnect exampleEnv exampleBigSchema (WindowRef 7) emptyCtx))
       = RejectedThrown (JStr ''TypeError'')"
    by (simp add: guestRun_def)
  show ?thesis
    using big src d start run by (simp only: simp_thms)
qed

end
